theory Spec2Isabelle
  imports Complex_Main "HOL-Library.Multiset"
begin

section \<open>Numbers and strings\<close>

text \<open>
  The TypeScript sources compute with \<^verbatim>\<open>number\<close>. Counts, scores and timestamps are
  modelled as \<^typ>\<open>int\<close>; weights, accuracies and random draws as \<^typ>\<open>real\<close>, since
  the only divisions on those paths are guarded against a zero divisor. The progress path
  divides the score by the item count without a guard, so its numbers are modelled with the
  special values the division can produce. Arithmetic on finite values is exact: IEEE
  rounding and overflow are not part of the model.
\<close>

datatype number = Finite real | NaN | PlusInfinity | MinusInfinity

fun js_neg :: "number \<Rightarrow> number" where
  "js_neg (Finite a) = Finite (- a)"
| "js_neg NaN = NaN"
| "js_neg PlusInfinity = MinusInfinity"
| "js_neg MinusInfinity = PlusInfinity"

text \<open>\<^verbatim>\<open>a + b\<close> and \<^verbatim>\<open>a - b\<close>.\<close>

fun js_add :: "number \<Rightarrow> number \<Rightarrow> number" where
  "js_add NaN y = NaN"
| "js_add x NaN = NaN"
| "js_add (Finite a) (Finite b) = Finite (a + b)"
| "js_add (Finite a) y = y"
| "js_add x (Finite b) = x"
| "js_add PlusInfinity PlusInfinity = PlusInfinity"
| "js_add MinusInfinity MinusInfinity = MinusInfinity"
| "js_add PlusInfinity MinusInfinity = NaN"
| "js_add MinusInfinity PlusInfinity = NaN"

definition js_sub :: "number \<Rightarrow> number \<Rightarrow> number" where
  "js_sub x y = js_add x (js_neg y)"

text \<open>\<^verbatim>\<open>a * b\<close>: an infinity times zero is NaN.\<close>

fun js_mul :: "number \<Rightarrow> number \<Rightarrow> number" where
  "js_mul NaN y = NaN"
| "js_mul x NaN = NaN"
| "js_mul (Finite a) (Finite b) = Finite (a * b)"
| "js_mul (Finite a) y = (if a = 0 then NaN else if 0 < a then y else js_neg y)"
| "js_mul x (Finite b) = (if b = 0 then NaN else if 0 < b then x else js_neg x)"
| "js_mul PlusInfinity y = y"
| "js_mul MinusInfinity y = js_neg y"

text \<open>
  \<^verbatim>\<open>a / b\<close>. A finite zero is the positive zero (the values divided here are integers read
  from the store): a non-zero value over zero is the infinity of its sign, zero over zero is
  NaN.
\<close>

fun js_div :: "number \<Rightarrow> number \<Rightarrow> number" where
  "js_div NaN y = NaN"
| "js_div x NaN = NaN"
| "js_div (Finite a) (Finite b) =
     (if b \<noteq> 0 then Finite (a / b)
      else if a = 0 then NaN else if 0 < a then PlusInfinity else MinusInfinity)"
| "js_div (Finite a) y = Finite 0"
| "js_div x (Finite b) = (if 0 \<le> b then x else js_neg x)"
| "js_div x y = NaN"

text \<open>\<^verbatim>\<open>a >= b\<close>, \<^verbatim>\<open>a < b\<close> and \<^verbatim>\<open>a !== b\<close>: every comparison with NaN is false.\<close>

fun js_ge :: "number \<Rightarrow> number \<Rightarrow> bool" where
  "js_ge NaN y = False"
| "js_ge x NaN = False"
| "js_ge (Finite a) (Finite b) = (b \<le> a)"
| "js_ge PlusInfinity y = True"
| "js_ge x MinusInfinity = True"
| "js_ge x y = False"

definition js_lt :: "number \<Rightarrow> number \<Rightarrow> bool" where
  "js_lt x y = (x \<noteq> NaN \<and> y \<noteq> NaN \<and> \<not> js_ge x y)"

definition js_strict_ne :: "number \<Rightarrow> number \<Rightarrow> bool" where
  "js_strict_ne x y = (x = NaN \<or> y = NaN \<or> x \<noteq> y)"

text \<open>\<^verbatim>\<open>Math.max(a, b)\<close> and \<^verbatim>\<open>Math.min(a, b)\<close>: NaN when an argument is NaN.\<close>

definition Math_max :: "number \<Rightarrow> number \<Rightarrow> number" where
  "Math_max x y = (if x = NaN \<or> y = NaN then NaN else if js_ge x y then x else y)"

definition Math_min :: "number \<Rightarrow> number \<Rightarrow> number" where
  "Math_min x y = (if x = NaN \<or> y = NaN then NaN else if js_ge x y then y else x)"

text \<open>
  \<^verbatim>\<open>String.prototype.toLowerCase\<close>, on the ASCII letters. Strings are byte lists, so the
  letters outside ASCII are left as they are; no theorem below depends on what
  \<open>toLowerCase\<close> does to a string.
\<close>

definition lowerChar :: "char \<Rightarrow> char" where
  "lowerChar c =
     (let n = (of_char c :: nat) in if 65 \<le> n \<and> n \<le> 90 then char_of (n + 32) else c)"

definition toLowerCase :: "string \<Rightarrow> string" where
  "toLowerCase s = map lowerChar s"

section \<open>Progress aggregation (features/quizzes/lib/complete-quiz.ts)\<close>

definition UNLOCK_THRESHOLD :: number where
  "UNLOCK_THRESHOLD = Finite 80"

definition COMPLETION_THRESHOLD :: number where
  "COMPLETION_THRESHOLD = Finite 100"

definition calculateNewProgress :: "number \<Rightarrow> number \<Rightarrow> int \<Rightarrow> number" where
  "calculateNewProgress currentProgress quizPercentage sessionCount =
     (if sessionCount \<le> 1 then quizPercentage
      else
        let weight = Finite 0.4;
            newProgress = js_add (js_mul currentProgress (js_sub (Finite 1) weight))
                            (js_mul quizPercentage weight);
            minProgress = Math_max (Finite 0) (js_sub currentProgress (Finite 10))
        in Math_max minProgress (Math_min (Finite 100) newProgress))"

section \<open>Quiz types and configuration (features/quizzes/types)\<close>

datatype CharacterType = HIRAGANA | KATAKANA

record QuizCharacter =
  charId :: string
  character :: string
  reading :: string
  charType :: CharacterType

record QuizQuestion =
  character :: QuizCharacter
  options :: "string list"
  correctAnswer :: string

record QuizConfig =
  questionCount :: int
  optionsCount :: int
  weakCharacterWeight :: real
  minAttemptsForMastery :: int
  masteryThreshold :: real

definition DEFAULT_QUIZ_CONFIG :: QuizConfig where
  "DEFAULT_QUIZ_CONFIG =
     \<lparr>questionCount = 10, optionsCount = 4, weakCharacterWeight = 3,
      minAttemptsForMastery = 5, masteryThreshold = 0.8\<rparr>"

section \<open>Adaptive quiz generation (start-quiz)\<close>

text \<open>
  \<^verbatim>\<open>Math.random()\<close> is an oracle: the sequence \<open>rs\<close> of its successive results and the
  position \<open>p\<close> of the next draw are threaded through every function that draws. The
  contract of \<^verbatim>\<open>Math.random\<close> is that each draw lies in \<open>[0, 1)\<close>.
\<close>

definition mathRandomContract :: "(nat \<Rightarrow> real) \<Rightarrow> bool" where
  "mathRandomContract rs = (\<forall>n. 0 \<le> rs n \<and> rs n < 1)"

text \<open>The value type of the \<^verbatim>\<open>userStats\<close> map, and the interface \<^verbatim>\<open>{ weight: number }\<close>.\<close>

record AttemptCounts =
  totalAttempts :: int
  correctCount :: int

record Weighted =
  weight :: real

record WeightedCharacter = Weighted +
  character :: QuizCharacter
  accuracy :: real

text \<open>
  The Fisher-Yates loop \<^verbatim>\<open>for (let i = shuffled.length - 1; i > 0; i--)\<close>, with the swap
  \<^verbatim>\<open>[shuffled[i], shuffled[j]] = [shuffled[j], shuffled[i]]\<close>. Under the contract of
  \<^verbatim>\<open>Math.random\<close> the index \<open>j\<close> is at most \<open>i\<close>, so both reads are in range.
\<close>

fun shuffleLoop :: "(nat \<Rightarrow> real) \<Rightarrow> nat \<Rightarrow> nat \<Rightarrow> 'a list \<Rightarrow> 'a list \<times> nat" where
  "shuffleLoop rs p 0 shuffled = (shuffled, p)"
| "shuffleLoop rs p (Suc i) shuffled =
     (let j = nat \<lfloor>rs p * real (Suc i + 1)\<rfloor>
      in shuffleLoop rs (Suc p) i (shuffled[Suc i := shuffled ! j, j := shuffled ! Suc i]))"

definition shuffleArray :: "(nat \<Rightarrow> real) \<Rightarrow> nat \<Rightarrow> 'a list \<Rightarrow> 'a list \<times> nat" where
  "shuffleArray rs p array = shuffleLoop rs p (length array - 1) array"

text \<open>
  The \<^verbatim>\<open>for (const item of items)\<close> loop of \<^verbatim>\<open>weightedRandomSelect\<close>: the position at which
  it returns, or \<open>None\<close> when it runs to the end of the array.
\<close>

fun weightedScan :: "real \<Rightarrow> 'a Weighted_scheme list \<Rightarrow> nat option" where
  "weightedScan random [] = None"
| "weightedScan random (item # rest) =
     (let random' = random - weight item
      in if random' \<le> 0 then Some 0 else map_option Suc (weightedScan random' rest))"

text \<open>
  \<open>weightedRandomSelectIndex items r\<close> is the position in \<open>items\<close> of the object that
  \<^verbatim>\<open>weightedRandomSelect(items)\<close> returns when \<^verbatim>\<open>Math.random()\<close> yields \<open>r\<close>; the
  fallback is \<^verbatim>\<open>items[items.length - 1]\<close>. On the empty array the source returns
  \<^verbatim>\<open>undefined\<close>, here \<open>None\<close>.
\<close>

definition weightedRandomSelectIndex :: "'a Weighted_scheme list \<Rightarrow> real \<Rightarrow> nat" where
  "weightedRandomSelectIndex items r =
     (let totalWeight = foldl (\<lambda>sum item. sum + weight item) 0 items;
          random = r * totalWeight
      in case weightedScan random items of Some i \<Rightarrow> i | None \<Rightarrow> length items - 1)"

definition weightedRandomSelect ::
  "'a Weighted_scheme list \<Rightarrow> real \<Rightarrow> 'a Weighted_scheme option" where
  "weightedRandomSelect items r =
     (if items = [] then None else Some (items ! weightedRandomSelectIndex items r))"

text \<open>\<^verbatim>\<open>array.slice(0, end)\<close>: a negative \<open>end\<close> counts from the end of the array.\<close>

definition slice0 :: "'a list \<Rightarrow> int \<Rightarrow> 'a list" where
  "slice0 xs end =
     (if end < 0 then take (nat (int (length xs) + end)) xs else take (nat end) xs)"

definition generateWrongOptions ::
  "(nat \<Rightarrow> real) \<Rightarrow> nat \<Rightarrow> string \<Rightarrow> string list \<Rightarrow> int \<Rightarrow> string list \<times> nat" where
  "generateWrongOptions rs p correctReading allReadings cnt =
     (let available = filter (\<lambda>r. r \<noteq> correctReading) allReadings;
          (shuffled, p') = shuffleArray rs p available
      in (slice0 shuffled cnt, p'))"

definition calculateCharacterWeights ::
  "QuizCharacter list \<Rightarrow> (string \<rightharpoonup> AttemptCounts) \<Rightarrow> QuizConfig \<Rightarrow> WeightedCharacter list" where
  "calculateCharacterWeights characters userStats config =
     map (\<lambda>character.
       case userStats (charId character) of
         None \<Rightarrow> \<lparr>weight = 2, WeightedCharacter.character = character, accuracy = 0\<rparr>
       | Some stats \<Rightarrow>
           if totalAttempts stats = 0
           then \<lparr>weight = 2, WeightedCharacter.character = character, accuracy = 0\<rparr>
           else
             let accuracy = real_of_int (correctCount stats) / real_of_int (totalAttempts stats);
                 weight = (1 - accuracy) * weakCharacterWeight config + 1
             in \<lparr>weight = weight, WeightedCharacter.character = character, accuracy = accuracy\<rparr>)
       characters"

text \<open>\<^verbatim>\<open>available.splice(index, 1)\<close>, for an index inside the array.\<close>

definition splice1 :: "'a list \<Rightarrow> nat \<Rightarrow> 'a list" where
  "splice1 xs index = take index xs @ drop (Suc index) xs"

text \<open>
  The \<^verbatim>\<open>while\<close> loop of \<^verbatim>\<open>selectAdaptiveCharacters\<close>. The array \<open>available\<close> holds
  distinct objects, so \<^verbatim>\<open>available.indexOf(chosen)\<close> is the position at which
  \<^verbatim>\<open>weightedRandomSelect\<close> stopped.
\<close>

function selectLoop ::
  "(nat \<Rightarrow> real) \<Rightarrow> nat \<Rightarrow> QuizCharacter list \<Rightarrow> WeightedCharacter list \<Rightarrow> int
     \<Rightarrow> QuizCharacter list \<times> nat" where
  "selectLoop rs p selected available cnt =
     (if int (length selected) < cnt \<and> length available > 0 then
        let index = weightedRandomSelectIndex available (rs p);
            chosen = available ! index
        in selectLoop rs (Suc p) (selected @ [WeightedCharacter.character chosen])
             (splice1 available index) cnt
      else (selected, p))"
  by pat_completeness auto
termination
proof (relation "measure (\<lambda>(rs, p, selected, available, cnt). length available)")
  show "wf (measure (\<lambda>(rs, p, selected, available, cnt). length (available :: WeightedCharacter list)))"
    by simp
next
  fix rs :: "nat \<Rightarrow> real" and p :: nat and selected :: "QuizCharacter list"
    and available :: "WeightedCharacter list" and cnt :: int and index chosen
  assume run: "int (length selected) < cnt \<and> 0 < length available"
    and idx: "index = weightedRandomSelectIndex available (rs p)"
  have scan: "weightedScan r xs = Some i \<Longrightarrow> i < length xs"
    for r i and xs :: "WeightedCharacter list"
    by (induction xs arbitrary: r i) (auto simp: Let_def split: if_splits)
  have "index < length available"
    using run scan unfolding idx weightedRandomSelectIndex_def Let_def
    by (auto split: option.splits)
  then have "length (splice1 available index) < length available"
    by (simp add: splice1_def)
  then show "((rs, Suc p, selected @ [WeightedCharacter.character chosen],
               splice1 available index, cnt),
              (rs, p, selected, available, cnt))
             \<in> measure (\<lambda>(rs, p, selected, available, cnt). length available)"
    by simp
qed

declare selectLoop.simps [simp del]

definition selectAdaptiveCharacters ::
  "(nat \<Rightarrow> real) \<Rightarrow> nat \<Rightarrow> WeightedCharacter list \<Rightarrow> int \<Rightarrow> QuizCharacter list \<times> nat" where
  "selectAdaptiveCharacters rs p weightedCharacters cnt =
     selectLoop rs p [] weightedCharacters cnt"

fun buildQuestions ::
  "(nat \<Rightarrow> real) \<Rightarrow> nat \<Rightarrow> QuizCharacter list \<Rightarrow> string list \<Rightarrow> int
     \<Rightarrow> QuizQuestion list \<times> nat" where
  "buildQuestions rs p [] allReadings optionsCnt = ([], p)"
| "buildQuestions rs p (ch # rest) allReadings optionsCnt =
     (let (wrongOptions, p1) =
            generateWrongOptions rs p (reading ch) allReadings (optionsCnt - 1);
          (options, p2) = shuffleArray rs p1 (reading ch # wrongOptions);
          (questions, p3) = buildQuestions rs p2 rest allReadings optionsCnt
      in (\<lparr>QuizQuestion.character = ch, options = options,
           correctAnswer = reading ch\<rparr> # questions, p3))"

text \<open>\<^verbatim>\<open>[...new Set(xs)]\<close>: the first occurrence of each element, in order.\<close>

definition uniqueInOrder :: "'a list \<Rightarrow> 'a list" where
  "uniqueInOrder xs = rev (remdups (rev xs))"

section \<open>Stored data\<close>

text \<open>
  The tables the quiz library reads and writes through the Prisma client. Timestamps are
  milliseconds. A table that the code scans or counts is a list of rows; a table that is
  only read and written by its unique key is a map from that key. \<open>moduleCharacters\<close> is
  the result of the query \<^verbatim>\<open>include: { moduleCharacters: { orderBy: { order: "asc" },
  include: { character: true } } }\<close>: the characters of the module, in order.
\<close>

record UserCharacterStats = AttemptCounts +
  streakCount :: int
  lastAttemptAt :: int

record QuizSessionRow =
  rowId :: string
  userId :: string
  moduleId :: string
  totalItems :: int
  score :: int
  startedAt :: int
  completedAt :: "int option"

record QuizAnswer =
  sessionId :: string
  characterId :: string
  userAnswer :: string
  isCorrect :: bool
  responseTimeMs :: "int option"

record ModuleRow =
  moduleName :: string
  moduleCharacters :: "QuizCharacter list"

record Database =
  modules :: "string \<rightharpoonup> ModuleRow"
  characters :: "string \<rightharpoonup> QuizCharacter"
  sessions :: "QuizSessionRow list"
  answers :: "QuizAnswer list"
  userCharacterStats :: "string \<times> string \<rightharpoonup> UserCharacterStats"
  userProgress :: "string \<times> string \<rightharpoonup> number"

text \<open>
  The invariant of the stored statistics, \<open>0 \<le> correctCount \<le> totalAttempts\<close> for every
  row.
\<close>

definition statsInvariant :: "Database \<Rightarrow> bool" where
  "statsInvariant db =
     (\<forall>key st. userCharacterStats db key = Some st \<longrightarrow>
        0 \<le> correctCount st \<and> correctCount st \<le> totalAttempts st)"

text \<open>The messages of the errors the library throws.\<close>

datatype error =
    ModuleNotFound
  | ModuleHasNoCharacters
  | SessionNotFoundOrCompleted
  | CharacterAlreadyAnswered
  | CharacterNotFound
  | AnswersAlreadySubmitted
  | SessionNotFound
  | SessionAlreadyCompleted

text \<open>\<^verbatim>\<open>tx.quizSession.update({ where: { id }, data })\<close>.\<close>

definition updateSession ::
  "string \<Rightarrow> (QuizSessionRow \<Rightarrow> QuizSessionRow) \<Rightarrow> Database \<Rightarrow> Database" where
  "updateSession sid f db =
     db\<lparr>sessions := map (\<lambda>s. if rowId s = sid then f s else s) (sessions db)\<rparr>"

text \<open>
  \<^verbatim>\<open>prisma.quizSession.findFirst({ where: { id, userId, completedAt: null } })\<close>.
\<close>

definition findActiveSession :: "Database \<Rightarrow> string \<Rightarrow> string \<Rightarrow> QuizSessionRow option" where
  "findActiveSession db sid uid =
     find (\<lambda>s. rowId s = sid \<and> userId s = uid \<and> completedAt s = None) (sessions db)"

section \<open>Starting a quiz (start-quiz)\<close>

record QuizSession =
  id :: string
  moduleId :: string
  moduleName :: string
  questions :: "QuizQuestion list"
  totalItems :: int
  startedAt :: int

text \<open>
  Modelled from the spec: the column defaults of the session table (the schema is not part
  of the sources): a new session has \<open>score = 0\<close> and no completion timestamp. The
  identifier \<open>newId\<close> is the one the store generates for the new row.
\<close>

definition createSession :: "string \<Rightarrow> string \<Rightarrow> string \<Rightarrow> int \<Rightarrow> int \<Rightarrow> QuizSessionRow" where
  "createSession newId uid mid items now =
     \<lparr>rowId = newId, userId = uid, QuizSessionRow.moduleId = mid,
      QuizSessionRow.totalItems = items, score = 0, QuizSessionRow.startedAt = now,
      completedAt = None\<rparr>"

definition startQuiz ::
  "(nat \<Rightarrow> real) \<Rightarrow> string \<Rightarrow> int \<Rightarrow> string \<Rightarrow> string \<Rightarrow> QuizConfig \<Rightarrow> Database
     \<Rightarrow> (error + QuizSession) \<times> Database" where
  "startQuiz rs newId now uid mid config db =
     (case modules db mid of
        None \<Rightarrow> (Inl ModuleNotFound, db)
      | Some moduleRow \<Rightarrow>
          if length (moduleCharacters moduleRow) = 0 then (Inl ModuleHasNoCharacters, db)
          else
            let characterIds = map charId (moduleCharacters moduleRow);
                statsMap = (\<lambda>cid. if cid \<in> set characterIds
                              then map_option AttemptCounts.truncate (userCharacterStats db (uid, cid))
                              else None);
                chars = moduleCharacters moduleRow;
                weightedCharacters = calculateCharacterWeights chars statsMap config;
                questionCnt = min (questionCount config) (int (length chars));
                (selectedCharacters, p1) =
                  selectAdaptiveCharacters rs 0 weightedCharacters questionCnt;
                allReadings = uniqueInOrder (map reading chars);
                (quizQuestions, p2) =
                  buildQuestions rs p1 selectedCharacters allReadings (optionsCount config);
                session = createSession newId uid mid (int (length quizQuestions)) now;
                db' = db\<lparr>sessions := sessions db @ [session]\<rparr>;
                (shuffledQuestions, p3) = shuffleArray rs p2 quizQuestions
            in (Inr \<lparr>id = rowId session, QuizSession.moduleId = mid,
                     QuizSession.moduleName = ModuleRow.moduleName moduleRow,
                     questions = shuffledQuestions,
                     totalItems = int (length quizQuestions),
                     startedAt = QuizSessionRow.startedAt session\<rparr>, db'))"

section \<open>Submitting answers (submit-answer, submit-answers-batch)\<close>

record AnswerResult =
  isCorrect :: bool
  correctAnswer :: string
  streakCount :: int
  accuracy :: real

definition submitAnswer ::
  "string \<Rightarrow> string \<Rightarrow> string \<Rightarrow> string \<Rightarrow> int option \<Rightarrow> int \<Rightarrow> Database
     \<Rightarrow> (error + AnswerResult) \<times> Database" where
  "submitAnswer uid sid cid answer timeMs now db =
     (case findActiveSession db sid uid of
        None \<Rightarrow> (Inl SessionNotFoundOrCompleted, db)
      | Some session \<Rightarrow>
         (case find (\<lambda>a. sessionId a = sid \<and> characterId a = cid) (answers db) of
            Some existingAnswer \<Rightarrow> (Inl CharacterAlreadyAnswered, db)
          | None \<Rightarrow>
             (case characters db cid of
                None \<Rightarrow> (Inl CharacterNotFound, db)
              | Some ch \<Rightarrow>
                  let correct = (toLowerCase answer = toLowerCase (reading ch));
                      db1 = db\<lparr>answers := answers db @
                              [\<lparr>sessionId = sid, characterId = cid, userAnswer = answer,
                                QuizAnswer.isCorrect = correct, responseTimeMs = timeMs\<rparr>]\<rparr>;
                      db2 = (if correct
                             then updateSession sid (\<lambda>s. s\<lparr>score := score s + 1\<rparr>) db1
                             else db1);
                      existingStats = userCharacterStats db2 (uid, cid);
                      newStreakCount =
                        (case existingStats of
                           Some st \<Rightarrow> if correct then UserCharacterStats.streakCount st + 1 else 0
                         | None \<Rightarrow> if correct then 1 else 0);
                      newTotalAttempts =
                        (case existingStats of Some st \<Rightarrow> totalAttempts st + 1 | None \<Rightarrow> 1);
                      newCorrectCount =
                        (case existingStats of
                           Some st \<Rightarrow> correctCount st + (if correct then 1 else 0)
                         | None \<Rightarrow> if correct then 1 else 0);
                      db3 = db2\<lparr>userCharacterStats := (userCharacterStats db2)((uid, cid) \<mapsto>
                              \<lparr>totalAttempts = newTotalAttempts, correctCount = newCorrectCount,
                               UserCharacterStats.streakCount = newStreakCount,
                               lastAttemptAt = now\<rparr>)\<rparr>;
                      acc = (if newTotalAttempts > 0
                             then real_of_int newCorrectCount / real_of_int newTotalAttempts
                             else 0)
                  in (Inr \<lparr>isCorrect = correct, AnswerResult.correctAnswer = reading ch,
                           streakCount = newStreakCount, accuracy = acc\<rparr>, db3))))"

record BatchAnswer =
  characterId :: string
  userAnswer :: string
  isCorrect :: bool
  responseTimeMs :: int

record BatchSubmitResult =
  score :: int
  totalItems :: int

text \<open>One iteration of \<^verbatim>\<open>for (const answer of answers)\<close> in the transaction.\<close>

definition updateStatsFor :: "string \<Rightarrow> int \<Rightarrow> Database \<Rightarrow> BatchAnswer \<Rightarrow> Database" where
  "updateStatsFor uid now db answer =
     (let key = (uid, BatchAnswer.characterId answer)
      in case userCharacterStats db key of
           Some existingStats \<Rightarrow>
             db\<lparr>userCharacterStats := (userCharacterStats db)(key \<mapsto>
                  existingStats\<lparr>totalAttempts := totalAttempts existingStats + 1,
                    correctCount := (if BatchAnswer.isCorrect answer
                                     then correctCount existingStats + 1
                                     else correctCount existingStats),
                    UserCharacterStats.streakCount :=
                      (if BatchAnswer.isCorrect answer
                       then UserCharacterStats.streakCount existingStats + 1 else 0),
                    lastAttemptAt := now\<rparr>)\<rparr>
         | None \<Rightarrow>
             db\<lparr>userCharacterStats := (userCharacterStats db)(key \<mapsto>
                  \<lparr>totalAttempts = 1,
                   correctCount = (if BatchAnswer.isCorrect answer then 1 else 0),
                   UserCharacterStats.streakCount = (if BatchAnswer.isCorrect answer then 1 else 0),
                   lastAttemptAt = now\<rparr>)\<rparr>)"

definition submitAnswersBatch ::
  "string \<Rightarrow> string \<Rightarrow> BatchAnswer list \<Rightarrow> int \<Rightarrow> Database
     \<Rightarrow> (error + BatchSubmitResult) \<times> Database" where
  "submitAnswersBatch uid sid batch now db =
     (case findActiveSession db sid uid of
        None \<Rightarrow> (Inl SessionNotFoundOrCompleted, db)
      | Some session \<Rightarrow>
          let existingAnswers = length (filter (\<lambda>a. sessionId a = sid) (answers db))
          in if existingAnswers > 0 then (Inl AnswersAlreadySubmitted, db)
             else
               let newScore = int (length (filter BatchAnswer.isCorrect batch));
                   db1 = db\<lparr>answers := answers db @
                           map (\<lambda>answer.
                                 \<lparr>sessionId = sid,
                                  characterId = BatchAnswer.characterId answer,
                                  userAnswer = BatchAnswer.userAnswer answer,
                                  QuizAnswer.isCorrect = BatchAnswer.isCorrect answer,
                                  responseTimeMs = Some (BatchAnswer.responseTimeMs answer)\<rparr>)
                               batch\<rparr>;
                   db2 = updateSession sid (\<lambda>s. s\<lparr>QuizSessionRow.score := newScore\<rparr>) db1;
                   db3 = foldl (updateStatsFor uid now) db2 batch
               in (Inr \<lparr>score = newScore, totalItems = int (length batch)\<rparr>, db3))"

section \<open>Completing a quiz (features/quizzes/lib/complete-quiz.ts)\<close>

record QuizResult =
  sessionId :: string
  score :: int
  totalItems :: int
  percentage :: number
  timeSpentMs :: int
  moduleProgressUpdated :: bool
  newModuleProgress :: number
  isModuleCompleted :: bool
  unlockedNextModule :: bool

text \<open>
  \<^verbatim>\<open>currentProgress?.percentage ?? 0\<close>: the stored percentage of the user for the module
  of the session, 0 when there is no row.
\<close>

definition storedProgress :: "Database \<Rightarrow> string \<Rightarrow> string \<Rightarrow> number" where
  "storedProgress db uid mid =
     (case userProgress db (uid, mid) of Some p \<Rightarrow> p | None \<Rightarrow> Finite 0)"

text \<open>
  The rows that \<^verbatim>\<open>prisma.quizSession.count({ where: { userId, moduleId, completedAt:
  { not: null } } })\<close> counts.
\<close>

definition completedSessions :: "Database \<Rightarrow> string \<Rightarrow> string \<Rightarrow> QuizSessionRow list" where
  "completedSessions db uid mid =
     filter (\<lambda>s. userId s = uid \<and> QuizSessionRow.moduleId s = mid \<and> completedAt s \<noteq> None)
       (sessions db)"

text \<open>
  The store is taken to accept every number as a percentage, so a session without items is
  completed like any other and leaves NaN (or an infinity) as the progress.
\<close>

definition completeQuiz ::
  "string \<Rightarrow> string \<Rightarrow> int \<Rightarrow> Database \<Rightarrow> (error + QuizResult) \<times> Database" where
  "completeQuiz uid sid now db =
     (case find (\<lambda>s. rowId s = sid \<and> userId s = uid) (sessions db) of
        None \<Rightarrow> (Inl SessionNotFound, db)
      | Some session \<Rightarrow>
          if completedAt session \<noteq> None then (Inl SessionAlreadyCompleted, db)
          else
            let mid = QuizSessionRow.moduleId session;
                timeSpent = now - QuizSessionRow.startedAt session;
                pct = js_mul
                        (js_div (Finite (real_of_int (QuizSessionRow.score session)))
                                (Finite (real_of_int (QuizSessionRow.totalItems session))))
                        (Finite 100);
                sessionCount = int (length (completedSessions db uid mid));
                oldProgress = storedProgress db uid mid;
                newProgress = calculateNewProgress oldProgress pct (sessionCount + 1);
                wasAboveThreshold = js_ge oldProgress UNLOCK_THRESHOLD;
                isAboveThreshold = js_ge newProgress UNLOCK_THRESHOLD;
                unlocked = (\<not> wasAboveThreshold \<and> isAboveThreshold);
                wasCompleted = js_ge oldProgress COMPLETION_THRESHOLD;
                isCompleted = js_ge newProgress COMPLETION_THRESHOLD;
                db1 = updateSession sid (\<lambda>s. s\<lparr>completedAt := Some now\<rparr>) db;
                db2 = db1\<lparr>userProgress := (userProgress db1)((uid, mid) \<mapsto> newProgress)\<rparr>
            in (Inr \<lparr>sessionId = sid,
                     score = QuizSessionRow.score session,
                     totalItems = QuizSessionRow.totalItems session,
                     percentage = pct,
                     timeSpentMs = timeSpent,
                     moduleProgressUpdated = js_strict_ne newProgress oldProgress,
                     newModuleProgress = newProgress,
                     isModuleCompleted = (isCompleted \<and> \<not> wasCompleted),
                     unlockedNextModule = unlocked\<rparr>, db2))"

text \<open>
  A progress row is written by \<open>completeQuiz\<close> alone, together with the completion
  timestamp of a session of the same user and module: in every state that the operations of this
  theory reach from a store without progress rows, a progress row comes with a completed session.
\<close>

definition progressInvariant :: "Database \<Rightarrow> bool" where
  "progressInvariant db =
     (\<forall>uid mid. userProgress db (uid, mid) \<noteq> None \<longrightarrow> completedSessions db uid mid \<noteq> [])"

section \<open>The client answer queue (features/quizzes/hooks/useAnswerQueue.ts)\<close>

datatype Status = Pending | Syncing | Synced | Failed

record PendingAnswer =
  id :: string
  sessionId :: string
  characterId :: string
  userAnswer :: string
  responseTimeMs :: int
  isCorrect :: bool
  timestamp :: int
  retryCount :: int
  status :: Status

definition MAX_RETRIES :: int where
  "MAX_RETRIES = 3"

definition RETRY_DELAYS :: "int list" where
  "RETRY_DELAYS = [1000, 2000, 5000]"

text \<open>The filter with which \<^verbatim>\<open>processQueue\<close> picks the answers of a pass.\<close>

definition pendingAnswers :: "PendingAnswer list \<Rightarrow> PendingAnswer list" where
  "pendingAnswers currentAnswers =
     filter (\<lambda>a. status a = Pending \<or> (status a = Failed \<and> retryCount a < MAX_RETRIES))
       currentAnswers"

text \<open>The three state updates of \<^verbatim>\<open>processQueue\<close>, as their updater functions.\<close>

definition markSyncing :: "PendingAnswer \<Rightarrow> PendingAnswer list \<Rightarrow> PendingAnswer list" where
  "markSyncing answer prev =
     map (\<lambda>a. if PendingAnswer.id a = PendingAnswer.id answer then a\<lparr>status := Syncing\<rparr> else a) prev"

definition markSynced :: "PendingAnswer \<Rightarrow> PendingAnswer list \<Rightarrow> PendingAnswer list" where
  "markSynced answer prev =
     map (\<lambda>a. if PendingAnswer.id a = PendingAnswer.id answer then a\<lparr>status := Synced\<rparr> else a) prev"

definition markFailed :: "PendingAnswer \<Rightarrow> PendingAnswer list \<Rightarrow> PendingAnswer list" where
  "markFailed answer prev =
     map (\<lambda>a. if PendingAnswer.id a = PendingAnswer.id answer
               then a\<lparr>status := Failed, retryCount := retryCount a + 1\<rparr> else a) prev"

text \<open>
  \<^verbatim>\<open>RETRY_DELAYS[Math.min(answer.retryCount, RETRY_DELAYS.length - 1)]\<close>, where \<open>answer\<close>
  is the answer as the pass picked it; \<open>None\<close> is \<^verbatim>\<open>undefined\<close>.
\<close>

definition retryDelay :: "PendingAnswer \<Rightarrow> int option" where
  "retryDelay answer =
     (let i = min (retryCount answer) (int (length RETRY_DELAYS) - 1)
      in if 0 \<le> i then Some (RETRY_DELAYS ! nat i) else None)"

text \<open>
  One pass of \<^verbatim>\<open>processQueue\<close> over the picked answers while the component stays
  mounted and no other pass runs: \<open>deliver answer\<close> tells whether
  \<^verbatim>\<open>submitAnswerAction\<close> succeeds for the answer, each state update is applied to
  \<^verbatim>\<open>answersRef.current\<close> as its updater does, and the delays of the retry timers that
  the pass sets are collected.
\<close>

fun processPass ::
  "(PendingAnswer \<Rightarrow> bool) \<Rightarrow> PendingAnswer list \<Rightarrow> PendingAnswer list \<Rightarrow> int option list
     \<Rightarrow> PendingAnswer list \<times> int option list" where
  "processPass deliver [] current timers = (current, timers)"
| "processPass deliver (answer # rest) current timers =
     (let current1 = markSyncing answer current
      in if deliver answer
         then processPass deliver rest (markSynced answer current1) timers
         else processPass deliver rest (markFailed answer current1)
                (timers @ [retryDelay answer]))"

definition processQueue ::
  "(PendingAnswer \<Rightarrow> bool) \<Rightarrow> PendingAnswer list \<Rightarrow> PendingAnswer list \<times> int option list" where
  "processQueue deliver currentAnswers =
     processPass deliver (pendingAnswers currentAnswers) currentAnswers []"

text \<open>
  \<^verbatim>\<open>checkSync\<close> inside \<^verbatim>\<open>waitForSync\<close>, on the current content of the queue and the
  time elapsed since \<^verbatim>\<open>waitForSync\<close> was called: \<open>Some b\<close> is \<^verbatim>\<open>resolve(b)\<close>, \<open>None\<close>
  is another poll after 100 ms.
\<close>

definition checkSync :: "PendingAnswer list \<Rightarrow> int \<Rightarrow> bool option" where
  "checkSync current elapsed =
     (let maxWaitTime = 10000;
          pendingItems = filter (\<lambda>a. status a = Pending \<or> status a = Syncing) current;
          failedItems = filter (\<lambda>a. status a = Failed \<and> retryCount a \<ge> MAX_RETRIES) current
      in if length pendingItems = 0 then Some (length failedItems = 0)
         else if elapsed > maxWaitTime then Some False
         else None)"

section \<open>The quiz container (client)\<close>

text \<open>
  The answer that \<^verbatim>\<open>QuizContainer.handleAnswer\<close> stores for the batch: the client scores
  the answer itself against \<^verbatim>\<open>currentQuestion.correctAnswer\<close>.
\<close>

definition handleAnswer :: "QuizQuestion \<Rightarrow> string \<Rightarrow> int \<Rightarrow> BatchAnswer" where
  "handleAnswer currentQuestion answer timeMs =
     \<lparr>BatchAnswer.characterId = charId (QuizQuestion.character currentQuestion),
      userAnswer = answer,
      isCorrect = (toLowerCase answer = toLowerCase (QuizQuestion.correctAnswer currentQuestion)),
      responseTimeMs = timeMs\<rparr>"

section \<open>Example data\<close>

definition exChar :: "string \<Rightarrow> string \<Rightarrow> QuizCharacter" where
  "exChar i r = \<lparr>charId = i, QuizCharacter.character = i, reading = r, charType = HIRAGANA\<rparr>"

definition exChars :: "QuizCharacter list" where
  "exChars = [exChar ''c1'' ''a'', exChar ''c2'' ''i'', exChar ''c3'' ''u'', exChar ''c4'' ''e'']"

definition exStats :: "string \<rightharpoonup> AttemptCounts" where
  "exStats = [''c1'' \<mapsto> \<lparr>totalAttempts = 4, correctCount = 1\<rparr>,
              ''c2'' \<mapsto> \<lparr>totalAttempts = 4, correctCount = 4\<rparr>,
              ''c3'' \<mapsto> \<lparr>totalAttempts = 0, correctCount = 0\<rparr>]"

definition exQuestion :: "string \<Rightarrow> string \<Rightarrow> QuizQuestion" where
  "exQuestion i r =
     \<lparr>QuizQuestion.character = exChar i r, options = [r], QuizQuestion.correctAnswer = r\<rparr>"

definition exDb :: Database where
  "exDb =
     \<lparr>modules = Map.empty,
      characters = [''c1'' \<mapsto> exChar ''c1'' ''a'', ''c2'' \<mapsto> exChar ''c2'' ''i''],
      sessions =
        [\<lparr>rowId = ''s0'', userId = ''u'', QuizSessionRow.moduleId = ''m'',
          QuizSessionRow.totalItems = 5, score = 5, QuizSessionRow.startedAt = 0,
          completedAt = Some 10\<rparr>,
         \<lparr>rowId = ''s1'', userId = ''u'', QuizSessionRow.moduleId = ''m'',
          QuizSessionRow.totalItems = 25, score = 21, QuizSessionRow.startedAt = 20,
          completedAt = None\<rparr>,
         \<lparr>rowId = ''s2'', userId = ''u'', QuizSessionRow.moduleId = ''m'',
          QuizSessionRow.totalItems = 1, score = 0, QuizSessionRow.startedAt = 30,
          completedAt = None\<rparr>],
      answers = [],
      userCharacterStats = Map.empty,
      userProgress = [(''u'', ''m'') \<mapsto> Finite 79]\<rparr>"

definition exResult :: QuizResult where
  "exResult =
     \<lparr>QuizResult.sessionId = ''s1'', score = 21, totalItems = 25, percentage = Finite 84,
      timeSpentMs = 80, moduleProgressUpdated = True, newModuleProgress = Finite 81,
      isModuleCompleted = False, unlockedNextModule = True\<rparr>"

definition exDbDone :: Database where
  "exDbDone = exDb\<lparr>sessions := (sessions exDb)[1 := (sessions exDb ! 1)\<lparr>completedAt := Some 100\<rparr>],
                   userProgress := [(''u'', ''m'') \<mapsto> Finite 81]\<rparr>"

definition exAnswer :: QuizAnswer where
  "exAnswer = \<lparr>QuizAnswer.sessionId = ''s2'', characterId = ''c1'', userAnswer = ''A'',
                isCorrect = True, responseTimeMs = Some 900\<rparr>"

definition exDbAnswered :: Database where
  "exDbAnswered =
     exDb\<lparr>sessions := (sessions exDb)[2 := (sessions exDb ! 2)\<lparr>QuizSessionRow.score := 1\<rparr>],
          answers := [exAnswer],
          userCharacterStats := [(''u'', ''c1'') \<mapsto>
            \<lparr>totalAttempts = 1, correctCount = 1, UserCharacterStats.streakCount = 1,
             lastAttemptAt = 50\<rparr>]\<rparr>"

definition exBatch :: "BatchAnswer list" where
  "exBatch =
     [\<lparr>BatchAnswer.characterId = ''c1'', userAnswer = ''x'', isCorrect = True, responseTimeMs = 5\<rparr>,
      \<lparr>BatchAnswer.characterId = ''c2'', userAnswer = ''i'', isCorrect = True, responseTimeMs = 6\<rparr>]"

definition exDbBatched :: Database where
  "exDbBatched =
     exDb\<lparr>sessions := (sessions exDb)[2 := (sessions exDb ! 2)\<lparr>QuizSessionRow.score := 2\<rparr>],
          answers :=
            [\<lparr>QuizAnswer.sessionId = ''s2'', characterId = ''c1'', userAnswer = ''x'',
              isCorrect = True, responseTimeMs = Some 5\<rparr>,
             \<lparr>QuizAnswer.sessionId = ''s2'', characterId = ''c2'', userAnswer = ''i'',
              isCorrect = True, responseTimeMs = Some 6\<rparr>],
          userCharacterStats :=
            [(''u'', ''c1'') \<mapsto>
               \<lparr>totalAttempts = 1, correctCount = 1, UserCharacterStats.streakCount = 1,
                lastAttemptAt = 50\<rparr>,
             (''u'', ''c2'') \<mapsto>
               \<lparr>totalAttempts = 1, correctCount = 1, UserCharacterStats.streakCount = 1,
                lastAttemptAt = 50\<rparr>]\<rparr>"

definition exModule :: ModuleRow where
  "exModule = \<lparr>ModuleRow.moduleName = ''Vocales'',
     moduleCharacters = [exChar ''c1'' ''a'', exChar ''c2'' ''i'', exChar ''c3'' ''u'',
                         exChar ''c4'' ''e'', exChar ''c5'' ''o'']\<rparr>"

definition exRandoms :: "nat \<Rightarrow> real" where
  "exRandoms n = real (n mod 3) / 3"

definition exDbM :: Database where
  "exDbM = exDb\<lparr>modules := [''m'' \<mapsto> exModule]\<rparr>"

definition exPending :: PendingAnswer where
  "exPending =
     \<lparr>PendingAnswer.id = ''a1'', sessionId = ''s2'', characterId = ''c1'', userAnswer = ''a'',
      responseTimeMs = 900, isCorrect = True, timestamp = 1000, retryCount = 0,
      status = Pending\<rparr>"

definition exDbNoItems :: Database where
  "exDbNoItems =
     \<lparr>modules = Map.empty, characters = Map.empty,
      sessions =
        [\<lparr>rowId = ''s3'', userId = ''u'', QuizSessionRow.moduleId = ''m'',
          QuizSessionRow.totalItems = 0, score = 0, QuizSessionRow.startedAt = 0,
          completedAt = None\<rparr>],
      answers = [], userCharacterStats = Map.empty, userProgress = Map.empty\<rparr>"

definition exResultNoItems :: QuizResult where
  "exResultNoItems =
     \<lparr>QuizResult.sessionId = ''s3'', score = 0, totalItems = 0, percentage = NaN,
      timeSpentMs = 40, moduleProgressUpdated = True, newModuleProgress = NaN,
      isModuleCompleted = False, unlockedNextModule = False\<rparr>"

definition exDbNoItemsDone :: Database where
  "exDbNoItemsDone =
     exDbNoItems\<lparr>sessions := [(sessions exDbNoItems ! 0)\<lparr>completedAt := Some 40\<rparr>],
                 userProgress := [(''u'', ''m'') \<mapsto> NaN]\<rparr>"

definition exDbFresh :: Database where
  "exDbFresh = exDb\<lparr>sessions := [sessions exDb ! 2], userProgress := Map.empty\<rparr>"

section \<open>Theorems\<close>

text \<open>
  A progress above 110 can be stored: two answers flagged correct, submitted in a batch to a
  fresh session of one item, give the percentage 200, which the first completion stores as
  it is.
\<close>

lemma progress_above_cap_stored:
  "storedProgress
     (snd (completeQuiz ''u'' ''s2'' 60
        (snd (submitAnswersBatch ''u'' ''s2'' exBatch 50 exDbFresh)))) ''u'' ''m'' = Finite 200"
  by (simp add: exDbFresh_def exDb_def exBatch_def exChar_def completeQuiz_def
        submitAnswersBatch_def findActiveSession_def updateSession_def storedProgress_def
        calculateNewProgress_def updateStatsFor_def completedSessions_def Let_def)

text \<open>
  C1, as stated, fails: the source applies the cap at 100 first and the floor
  \<open>max 0 (previous - 10)\<close> after it, so a previous progress above 110 gives a result above
  100.
\<close>

theorem calculateNewProgress_exceeds_cap:
  "calculateNewProgress (Finite 120) (Finite 100) 2 = Finite 110
   \<and> \<not> js_ge (Finite 100) (calculateNewProgress (Finite 120) (Finite 100) 2)"
  by (simp add: calculateNewProgress_def js_sub_def Math_max_def Math_min_def)

text \<open>
  C1, amended. For finite arguments: on a first session (\<open>sessionCount \<le> 1\<close>) the new
  progress is the session percentage itself. Otherwise it is the blend
  \<open>previous * 0.6 + sessionPercentage * 0.4\<close>, cut at 100 and then raised to the floor
  \<open>max 0 (previous - 10)\<close>. So the result is never below the floor, and it is at most 100
  whenever the floor is (\<open>previous \<le> 110\<close>). The two values of the specification:
  \<open>calculateNewProgress 50 100 2 = 70\<close> and \<open>calculateNewProgress 50 0 2 = 40\<close>.
\<close>

theorem calculateNewProgress_rule:
  "calculateNewProgress (Finite previous) (Finite sessionPercentage) sessionCount =
     Finite (if sessionCount \<le> 1 then sessionPercentage
             else max (max 0 (previous - 10))
                      (min 100 (previous * 0.6 + sessionPercentage * 0.4)))
   \<and> (1 < sessionCount \<longrightarrow>
        js_ge (calculateNewProgress (Finite previous) (Finite sessionPercentage) sessionCount)
              (Finite (max 0 (previous - 10))))
   \<and> (1 < sessionCount \<and> previous \<le> 110 \<longrightarrow>
        js_ge (Finite 100)
              (calculateNewProgress (Finite previous) (Finite sessionPercentage) sessionCount))
   \<and> calculateNewProgress (Finite 50) (Finite 100) 2 = Finite 70
   \<and> calculateNewProgress (Finite 50) (Finite 0) 2 = Finite 40"
  by (simp add: calculateNewProgress_def js_sub_def Math_max_def Math_min_def Let_def
        max_def min_def)

theorem calculateNewProgress_rule_witness:
  "calculateNewProgress (Finite 90) (Finite 30) 3 = Finite 80
   \<and> calculateNewProgress (Finite 90) (Finite 30) 1 = Finite 30
   \<and> js_ge (calculateNewProgress (Finite 90) (Finite 30) 3) (Finite (max 0 (90 - 10)))
   \<and> js_ge (Finite 100) (calculateNewProgress (Finite 90) (Finite 30) 3)"
  using calculateNewProgress_rule [of 90 30 3] calculateNewProgress_rule [of 90 30 1]
  by simp

text \<open>
  C4. The weight that \<open>calculateCharacterWeights\<close> gives the character at position \<open>i\<close> is 2
  when the user has no stats for it or \<open>totalAttempts = 0\<close>, and otherwise
  \<open>(1 - correctCount / totalAttempts) * weakCharacterWeight + 1\<close>. With the default
  \<open>weakCharacterWeight = 3\<close>, of two characters with attempts the one with the higher
  accuracy has the strictly lower weight, and the weight is at least 1 for stats that satisfy
  \<open>0 \<le> correctCount \<le> totalAttempts\<close>.
\<close>

theorem calculateCharacterWeights_rule:
  assumes "i < length cs"
  shows "length (calculateCharacterWeights cs userStats config) = length cs
    \<and> WeightedCharacter.character (calculateCharacterWeights cs userStats config ! i) = cs ! i
    \<and> weight (calculateCharacterWeights cs userStats config ! i) =
        (case userStats (charId (cs ! i)) of
           None \<Rightarrow> 2
         | Some stats \<Rightarrow>
             if totalAttempts stats = 0 then 2
             else (1 - real_of_int (correctCount stats) / real_of_int (totalAttempts stats))
                    * weakCharacterWeight config + 1)
    \<and> (\<forall>j si sj. j < length cs \<and> weakCharacterWeight config = 3
          \<and> userStats (charId (cs ! i)) = Some si \<and> totalAttempts si \<noteq> 0
          \<and> userStats (charId (cs ! j)) = Some sj \<and> totalAttempts sj \<noteq> 0
          \<and> real_of_int (correctCount si) / real_of_int (totalAttempts si)
              < real_of_int (correctCount sj) / real_of_int (totalAttempts sj)
          \<longrightarrow> weight (calculateCharacterWeights cs userStats config ! j)
              < weight (calculateCharacterWeights cs userStats config ! i))
    \<and> (\<forall>si. weakCharacterWeight config = 3
          \<and> userStats (charId (cs ! i)) = Some si
          \<and> 0 \<le> correctCount si \<and> correctCount si \<le> totalAttempts si
          \<longrightarrow> 1 \<le> weight (calculateCharacterWeights cs userStats config ! i))"
proof -
  let ?ws = "calculateCharacterWeights cs userStats config"
  let ?acc = "\<lambda>st. real_of_int (correctCount st) / real_of_int (totalAttempts st)"
  have len: "length ?ws = length cs"
    by (simp add: calculateCharacterWeights_def)
  have w: "weight (?ws ! k) =
        (case userStats (charId (cs ! k)) of
           None \<Rightarrow> 2
         | Some stats \<Rightarrow>
             if totalAttempts stats = 0 then 2 else (1 - ?acc stats) * weakCharacterWeight config + 1)"
    if "k < length cs" for k
    using that by (simp add: calculateCharacterWeights_def Let_def split: option.splits)
  have ch: "WeightedCharacter.character (?ws ! i) = cs ! i"
    using assms by (simp add: calculateCharacterWeights_def Let_def split: option.splits)
  have lin_mono: "x < y \<Longrightarrow> (1 - y) * 3 + 1 < (1 - x) * 3 + 1" for x y :: real
    by (simp add: algebra_simps)
  have lin_bound: "x \<le> 1 \<Longrightarrow> 1 \<le> (1 - x) * 3 + 1" for x :: real
    by (simp add: algebra_simps)
  have mono: "weight (?ws ! j) < weight (?ws ! i)"
    if "j < length cs" "weakCharacterWeight config = 3"
      "userStats (charId (cs ! i)) = Some si" "totalAttempts si \<noteq> 0"
      "userStats (charId (cs ! j)) = Some sj" "totalAttempts sj \<noteq> 0"
      "?acc si < ?acc sj" for j si sj
  proof -
    have "weight (?ws ! i) = (1 - ?acc si) * 3 + 1"
      using w [OF assms] that by simp
    moreover have "weight (?ws ! j) = (1 - ?acc sj) * 3 + 1"
      using w [OF that(1)] that by simp
    ultimately show ?thesis
      using lin_mono [OF that(7)] by simp
  qed
  have bound: "1 \<le> weight (?ws ! i)"
    if "weakCharacterWeight config = 3" "userStats (charId (cs ! i)) = Some si"
      "0 \<le> correctCount si" "correctCount si \<le> totalAttempts si" for si
  proof (cases "totalAttempts si = 0")
    case True
    then show ?thesis using w [OF assms] that by simp
  next
    case False
    have "?acc si \<le> 1" using that False by simp
    from lin_bound [OF this] show ?thesis
      using w [OF assms] that False by simp
  qed
  show ?thesis
    using len ch w [OF assms] mono bound by blast
qed

theorem calculateCharacterWeights_rule_witness:
  "(0::nat) < length exChars
   \<and> map weight (calculateCharacterWeights exChars exStats DEFAULT_QUIZ_CONFIG) = [13 / 4, 1, 2, 2]
   \<and> weight (calculateCharacterWeights exChars exStats DEFAULT_QUIZ_CONFIG ! 1)
       < weight (calculateCharacterWeights exChars exStats DEFAULT_QUIZ_CONFIG ! 0)
   \<and> 1 \<le> weight (calculateCharacterWeights exChars exStats DEFAULT_QUIZ_CONFIG ! 0)"
  using calculateCharacterWeights_rule [of 0 exChars exStats DEFAULT_QUIZ_CONFIG]
  by (simp add: calculateCharacterWeights_def DEFAULT_QUIZ_CONFIG_def exChar_def exChars_def
        exStats_def)

lemma weightedScan_bound:
  "weightedScan random items = Some i \<Longrightarrow> i < length items"
  by (induction items arbitrary: random i) (auto simp: Let_def split: if_splits)

lemma weightedRandomSelectIndex_bound:
  "items \<noteq> [] \<Longrightarrow> weightedRandomSelectIndex items r < length items"
  by (auto simp: weightedRandomSelectIndex_def Let_def split: option.splits
           dest: weightedScan_bound)

text \<open>
  C10. On a non-empty array \<open>weightedRandomSelect\<close> returns an element of the array, whatever
  the weights and the draw are; when the loop runs to the end without returning (the draw
  exceeds the accumulated weights), the result is the last element.
\<close>

theorem weightedRandomSelect_member:
  "items \<noteq> [] \<Longrightarrow>
     (\<exists>item. weightedRandomSelect items r = Some item \<and> item \<in> set items)
     \<and> (weightedScan (r * foldl (\<lambda>sum item. sum + weight item) 0 items) items = None
          \<longrightarrow> weightedRandomSelect items r = Some (last items))"
  using weightedRandomSelectIndex_bound [of items r]
  by (auto simp: weightedRandomSelect_def weightedRandomSelectIndex_def Let_def last_conv_nth)

theorem weightedRandomSelect_member_witness:
  "[\<lparr>weight = 0\<rparr>, \<lparr>weight = 0\<rparr>] \<noteq> []
   \<and> weightedRandomSelect [\<lparr>weight = 0\<rparr>, \<lparr>weight = 0\<rparr>] (1 / 2) = Some \<lparr>weight = 0\<rparr>
   \<and> weightedScan (2 * foldl (\<lambda>sum item. sum + weight item) 0 [\<lparr>weight = 1\<rparr>, \<lparr>weight = 2\<rparr>])
         [\<lparr>weight = 1\<rparr>, \<lparr>weight = 2\<rparr>] = None
   \<and> weightedRandomSelect [\<lparr>weight = 1\<rparr>, \<lparr>weight = 2\<rparr>] 2 = Some \<lparr>weight = 2\<rparr>"
  using weightedRandomSelect_member [of "[\<lparr>weight = 0\<rparr>, \<lparr>weight = 0\<rparr>]" "1 / 2"]
    weightedRandomSelect_member [of "[\<lparr>weight = 1\<rparr>, \<lparr>weight = 2\<rparr>]" 2]
  by (simp add: weightedRandomSelect_def weightedRandomSelectIndex_def)

subsection \<open>Session lifecycle\<close>

lemmas ev = exDb_def exChar_def completeQuiz_def submitAnswer_def submitAnswersBatch_def
  findActiveSession_def updateSession_def storedProgress_def calculateNewProgress_def
  UNLOCK_THRESHOLD_def COMPLETION_THRESHOLD_def Let_def updateStatsFor_def
  completedSessions_def js_sub_def Math_max_def Math_min_def js_strict_ne_def js_lt_def

lemma find_map_same:
  "(\<And>x. P (f x) = P x) \<Longrightarrow> find P (map f xs) = map_option f (find P xs)"
  by (induction xs) auto

lemma find_completed_None:
  "\<forall>t\<in>set xs. rowId t = sid \<longrightarrow> completedAt t \<noteq> None \<Longrightarrow>
   find (\<lambda>s. rowId s = sid \<and> userId s = uid \<and> completedAt s = None) xs = None"
  by (auto simp: find_None_iff)

lemma foldl_updateStatsFor_sessions [simp]:
  "sessions (foldl (updateStatsFor uid now) db batch) = sessions db"
  by (induction batch arbitrary: db) (auto simp: updateStatsFor_def Let_def split: option.splits)

lemma foldl_updateStatsFor_answers [simp]:
  "answers (foldl (updateStatsFor uid now) db batch) = answers db"
  by (induction batch arbitrary: db) (auto simp: updateStatsFor_def Let_def split: option.splits)

lemma foldl_updateStatsFor_userProgress [simp]:
  "userProgress (foldl (updateStatsFor uid now) db batch) = userProgress db"
  by (induction batch arbitrary: db) (auto simp: updateStatsFor_def Let_def split: option.splits)

lemma completeQuiz_sessions:
  "completeQuiz uid sid now db = (Inr r, db') \<Longrightarrow>
   sessions db' = map (\<lambda>s. if rowId s = sid then s\<lparr>completedAt := Some now\<rparr> else s) (sessions db)"
  by (auto simp: completeQuiz_def Let_def updateSession_def split: option.splits if_splits)

lemma submitAnswer_sessions:
  "submitAnswer uid sid cid answer timeMs now db = (Inr r, db') \<Longrightarrow>
   sessions db' = map (\<lambda>s. if rowId s = sid \<and> AnswerResult.isCorrect r
                           then s\<lparr>QuizSessionRow.score := QuizSessionRow.score s + 1\<rparr> else s) (sessions db)"
  by (auto simp: submitAnswer_def Let_def updateSession_def split: option.splits if_splits)

lemma submitAnswer_answers:
  "submitAnswer uid sid cid answer timeMs now db = (Inr r, db') \<Longrightarrow>
   \<exists>ch. characters db cid = Some ch \<and>
     answers db' = answers db @
       [\<lparr>QuizAnswer.sessionId = sid, characterId = cid, userAnswer = answer,
         QuizAnswer.isCorrect = (toLowerCase answer = toLowerCase (reading ch)),
         responseTimeMs = timeMs\<rparr>]"
  by (auto simp: submitAnswer_def Let_def updateSession_def split: option.splits if_splits)

lemma submitAnswer_active:
  "submitAnswer uid sid cid answer timeMs now db = (Inr r, db') \<Longrightarrow>
   findActiveSession db sid uid \<noteq> None"
  by (auto simp: submitAnswer_def split: option.splits)

lemma completed_after_update:
  "list_all (\<lambda>t. rowId t = sid \<longrightarrow> completedAt t \<noteq> None)
     (map (\<lambda>s. if rowId s = sid then s\<lparr>completedAt := Some n\<rparr> else s) xs)"
  by (induction xs) simp_all

lemma exDb_completeQuiz:
  "completeQuiz ''u'' ''s1'' 100 exDb = (Inr exResult, exDbDone)"
  by (simp add: ev exResult_def exDbDone_def)

lemma exDbDone_again:
  "completeQuiz ''u'' ''s1'' 200 exDbDone = (Inl SessionAlreadyCompleted, exDbDone)"
  by (simp add: ev exDbDone_def)

lemma find_append_hit:
  "P x \<Longrightarrow> find P (xs @ [x]) \<noteq> None"
  by (induction xs) simp_all

lemma toLowerCase_examples:
  "toLowerCase ''A'' = ''a''" "toLowerCase ''a'' = ''a''" "toLowerCase ''x'' = ''x''"
  "toLowerCase ''i'' = ''i''"
  by code_simp+

lemma exDb_submitAnswer:
  "submitAnswer ''u'' ''s2'' ''c1'' ''A'' (Some 900) 50 exDb =
     (Inr \<lparr>AnswerResult.isCorrect = True, correctAnswer = ''a'', streakCount = 1, accuracy = 1\<rparr>,
      exDbAnswered)"
  by (simp add: ev exDbAnswered_def exAnswer_def toLowerCase_examples)

lemma exDb_submitAnswersBatch:
  "submitAnswersBatch ''u'' ''s2'' exBatch 50 exDb =
     (Inr \<lparr>BatchSubmitResult.score = 2, totalItems = 2\<rparr>, exDbBatched)"
  by (simp add: ev exBatch_def exDbBatched_def)

lemma submitAnswersBatch_effect:
  "submitAnswersBatch uid sid batch now db = (Inr br, db') \<Longrightarrow>
   br = \<lparr>BatchSubmitResult.score = int (length (filter BatchAnswer.isCorrect batch)),
         totalItems = int (length batch)\<rparr>
   \<and> sessions db' =
       map (\<lambda>s. if rowId s = sid
                then s\<lparr>QuizSessionRow.score := int (length (filter BatchAnswer.isCorrect batch))\<rparr>
                else s) (sessions db)
   \<and> answers db' = answers db @
       map (\<lambda>b. \<lparr>QuizAnswer.sessionId = sid, characterId = BatchAnswer.characterId b,
                  userAnswer = BatchAnswer.userAnswer b,
                  QuizAnswer.isCorrect = BatchAnswer.isCorrect b,
                  responseTimeMs = Some (BatchAnswer.responseTimeMs b)\<rparr>) batch"
  by (auto simp: submitAnswersBatch_def Let_def updateSession_def split: option.splits if_splits)

lemma batch_rows_score:
  "list_all (\<lambda>s'. rowId s' = sid \<longrightarrow> QuizSessionRow.score s' = n)
     (map (\<lambda>s. if rowId s = sid then s\<lparr>QuizSessionRow.score := n\<rparr> else s) xs)"
  by (induction xs) simp_all

lemma map_totalItems_update:
  "map QuizSessionRow.totalItems (map (\<lambda>s. if c s then s\<lparr>QuizSessionRow.score := f s\<rparr> else s) xs)
     = map QuizSessionRow.totalItems xs"
  "map QuizSessionRow.totalItems (map (\<lambda>s. if c s then s\<lparr>completedAt := t\<rparr> else s) xs)
     = map QuizSessionRow.totalItems xs"
  "map QuizSessionRow.score (map (\<lambda>s. if c s then s\<lparr>completedAt := t\<rparr> else s) xs)
     = map QuizSessionRow.score xs"
  by (induction xs) simp_all

lemma map_score_increment:
  "map QuizSessionRow.score
     (map (\<lambda>s. if c s then s\<lparr>QuizSessionRow.score := QuizSessionRow.score s + 1\<rparr> else s) xs)
   = map (\<lambda>s. QuizSessionRow.score s + (if c s then 1 else 0)) xs"
  by (induction xs) simp_all

text \<open>
  Both ways of submitting answers keep the invariant of the stored statistics: each answer
  adds one attempt and at most one correct answer to the row of its character.
\<close>

lemma statsInvariant_update:
  "statsInvariant db \<Longrightarrow> 0 \<le> correctCount st \<Longrightarrow> correctCount st \<le> totalAttempts st \<Longrightarrow>
   statsInvariant (db\<lparr>userCharacterStats := (userCharacterStats db)(key \<mapsto> st)\<rparr>)"
  by (simp add: statsInvariant_def)

lemma statsInvariant_other_fields [simp]:
  "statsInvariant (db\<lparr>answers := xs\<rparr>) = statsInvariant db"
  "statsInvariant (updateSession sid f db) = statsInvariant db"
  by (simp_all add: statsInvariant_def updateSession_def)

lemma statsInvariant_lookup:
  "statsInvariant db \<Longrightarrow> userCharacterStats db key = Some st \<Longrightarrow>
   0 \<le> correctCount st \<and> correctCount st \<le> totalAttempts st"
  unfolding statsInvariant_def by blast

lemma updateStatsFor_statsInvariant:
  assumes inv: "statsInvariant db"
  shows "statsInvariant (updateStatsFor uid now db answer)"
proof (cases "userCharacterStats db (uid, BatchAnswer.characterId answer)")
  case None
  show ?thesis
    unfolding updateStatsFor_def Let_def None option.case
    by (rule statsInvariant_update [OF inv]) simp_all
next
  case (Some ex)
  note b = statsInvariant_lookup [OF inv Some]
  show ?thesis
    unfolding updateStatsFor_def Let_def Some option.case
    by (rule statsInvariant_update [OF inv]) (use b in simp_all)
qed

lemma foldl_updateStatsFor_statsInvariant:
  "statsInvariant db \<Longrightarrow> statsInvariant (foldl (updateStatsFor uid now) db batch)"
  by (induction batch arbitrary: db) (simp_all add: updateStatsFor_statsInvariant)

lemma submitAnswersBatch_statsInvariant:
  assumes inv: "statsInvariant db"
    and run: "submitAnswersBatch uid sid batch now db = (r, db')"
  shows "statsInvariant db'"
proof (cases "findActiveSession db sid uid")
  case None
  with run inv show ?thesis by (simp add: submitAnswersBatch_def)
next
  case (Some session)
  show ?thesis
  proof (cases "0 < length (filter (\<lambda>a. QuizAnswer.sessionId a = sid) (answers db))")
    case True
    with run inv Some show ?thesis by (simp add: submitAnswersBatch_def Let_def)
  next
    case False
    with run Some have "db' = foldl (updateStatsFor uid now)
      (updateSession sid
         (\<lambda>s. s\<lparr>QuizSessionRow.score := int (length (filter BatchAnswer.isCorrect batch))\<rparr>)
         (db\<lparr>answers := answers db @
           map (\<lambda>answer. \<lparr>QuizAnswer.sessionId = sid,
                  characterId = BatchAnswer.characterId answer,
                  userAnswer = BatchAnswer.userAnswer answer,
                  QuizAnswer.isCorrect = BatchAnswer.isCorrect answer,
                  responseTimeMs = Some (BatchAnswer.responseTimeMs answer)\<rparr>) batch\<rparr>)) batch"
      by (simp add: submitAnswersBatch_def Let_def)
    then show ?thesis
      using inv by (simp add: foldl_updateStatsFor_statsInvariant)
  qed
qed

lemma submitAnswer_stats:
  assumes run: "submitAnswer uid sid cid answer timeMs now db = (Inr r, db')"
  shows "\<exists>st. userCharacterStats db' = (userCharacterStats db)((uid, cid) \<mapsto> st)
     \<and> (case userCharacterStats db (uid, cid) of
           None \<Rightarrow> totalAttempts st = 1
             \<and> correctCount st = (if AnswerResult.isCorrect r then 1 else 0)
         | Some ex \<Rightarrow> totalAttempts st = totalAttempts ex + 1
             \<and> correctCount st = correctCount ex + (if AnswerResult.isCorrect r then 1 else 0))"
  using run unfolding submitAnswer_def Let_def updateSession_def
  by (auto split: option.splits if_splits)

lemma submitAnswer_statsInvariant:
  assumes inv: "statsInvariant db"
    and run: "submitAnswer uid sid cid answer timeMs now db = (r, db')"
  shows "statsInvariant db'"
proof (cases r)
  case (Inl e)
  with run have "db' = db"
    unfolding submitAnswer_def Let_def by (auto split: option.splits if_splits)
  with inv show ?thesis by simp
next
  case (Inr ar)
  from submitAnswer_stats [OF run [unfolded Inr]] obtain st where
    upd: "userCharacterStats db' = (userCharacterStats db)((uid, cid) \<mapsto> st)"
    and st: "case userCharacterStats db (uid, cid) of
           None \<Rightarrow> totalAttempts st = 1
             \<and> correctCount st = (if AnswerResult.isCorrect ar then 1 else 0)
         | Some ex \<Rightarrow> totalAttempts st = totalAttempts ex + 1
             \<and> correctCount st = correctCount ex + (if AnswerResult.isCorrect ar then 1 else 0)"
    by blast
  have b: "0 \<le> correctCount st \<and> correctCount st \<le> totalAttempts st"
  proof (cases "userCharacterStats db (uid, cid)")
    case None
    with st show ?thesis by simp
  next
    case (Some ex)
    with st statsInvariant_lookup [OF inv Some] show ?thesis by simp
  qed
  have "statsInvariant (db\<lparr>userCharacterStats := (userCharacterStats db)((uid, cid) \<mapsto> st)\<rparr>)"
    using inv b by (intro statsInvariant_update) simp_all
  then show ?thesis
    unfolding statsInvariant_def upd by simp
qed

text \<open>
  \<open>completeQuiz\<close> returns a result for every active session of the caller, also for a
  session without items, and every operation keeps the invariant that a progress row comes
  with a completed session of the same user and module.
\<close>

lemma exDbNoItems_completeQuiz:
  "completeQuiz ''u'' ''s3'' 40 exDbNoItems = (Inr exResultNoItems, exDbNoItemsDone)"
  by (simp add: ev exDbNoItems_def exResultNoItems_def exDbNoItemsDone_def)

lemma calculateNewProgress_NaN:
  "1 < n \<Longrightarrow> calculateNewProgress NaN q n = NaN"
  by (simp add: calculateNewProgress_def Math_max_def Math_min_def js_sub_def Let_def)

lemma js_lt_Finite:
  "x \<noteq> NaN \<Longrightarrow> js_lt x (Finite t) = (\<not> js_ge x (Finite t))"
  by (simp add: js_lt_def)

lemma completeQuiz_returns:
  "find (\<lambda>s. rowId s = sid \<and> userId s = uid) (sessions db) = Some session \<Longrightarrow>
   completedAt session = None \<Longrightarrow> \<exists>r db'. completeQuiz uid sid now db = (Inr r, db')"
  by (simp add: completeQuiz_def Let_def)

lemma completeQuiz_result:
  assumes run: "completeQuiz uid sid now db = (Inr r, db')"
  shows "\<exists>session. find (\<lambda>s. rowId s = sid \<and> userId s = uid) (sessions db) = Some session
     \<and> completedAt session = None
     \<and> newModuleProgress r =
         calculateNewProgress (storedProgress db uid (QuizSessionRow.moduleId session))
           (percentage r)
           (int (length (completedSessions db uid (QuizSessionRow.moduleId session))) + 1)
     \<and> percentage r =
         js_mul (js_div (Finite (real_of_int (QuizSessionRow.score session)))
                        (Finite (real_of_int (QuizSessionRow.totalItems session)))) (Finite 100)
     \<and> userProgress db' =
         (userProgress db)((uid, QuizSessionRow.moduleId session) \<mapsto> newModuleProgress r)
     \<and> unlockedNextModule r =
         (\<not> js_ge (storedProgress db uid (QuizSessionRow.moduleId session)) (Finite 80)
          \<and> js_ge (newModuleProgress r) (Finite 80))
     \<and> isModuleCompleted r =
         (js_ge (newModuleProgress r) (Finite 100)
          \<and> \<not> js_ge (storedProgress db uid (QuizSessionRow.moduleId session)) (Finite 100))"
proof (cases "find (\<lambda>s. rowId s = sid \<and> userId s = uid) (sessions db)")
  case None
  with run show ?thesis by (simp add: completeQuiz_def)
next
  case (Some session)
  show ?thesis
  proof (cases "completedAt session")
    case None
    with run Some show ?thesis
      by (auto simp: completeQuiz_def Let_def updateSession_def UNLOCK_THRESHOLD_def
          COMPLETION_THRESHOLD_def)
  next
    case (Some t)
    with run \<open>find _ _ = Some session\<close> show ?thesis by (simp add: completeQuiz_def)
  qed
qed


lemma filter_map_nonempty:
  "(\<And>x. P x \<Longrightarrow> P (f x)) \<Longrightarrow> filter P xs \<noteq> [] \<Longrightarrow> filter P (map f xs) \<noteq> []"
  by (induction xs) (auto split: if_splits)

lemma filter_map_hit:
  "find Q xs = Some x \<Longrightarrow> P (f x) \<Longrightarrow> filter P (map f xs) \<noteq> []"
  by (induction xs) (auto split: if_splits)

lemma completedSessions_score_update:
  "completedSessions db uid mid \<noteq> [] \<Longrightarrow>
   completedSessions (db\<lparr>sessions := map (\<lambda>s. if c s then s\<lparr>QuizSessionRow.score := g s\<rparr> else s)
                                      (sessions db)\<rparr>) uid mid \<noteq> []"
  unfolding completedSessions_def by (simp, rule filter_map_nonempty) simp_all

lemma completedSessions_completedAt_update:
  "completedSessions db uid mid \<noteq> [] \<Longrightarrow>
   completedSessions (db\<lparr>sessions := map (\<lambda>s. if c s then s\<lparr>completedAt := Some t\<rparr> else s)
                                      (sessions db)\<rparr>) uid mid \<noteq> []"
  unfolding completedSessions_def by (simp, rule filter_map_nonempty) simp_all

lemma progressInvariant_empty:
  "userProgress db = Map.empty \<Longrightarrow> progressInvariant db"
  by (simp add: progressInvariant_def)

lemma progressInvariant_sessions:
  assumes inv: "progressInvariant db"
    and up: "userProgress db' = userProgress db"
    and keep: "\<And>uid mid. completedSessions db uid mid \<noteq> [] \<Longrightarrow> completedSessions db' uid mid \<noteq> []"
  shows "progressInvariant db'"
  using inv keep unfolding progressInvariant_def up by blast

lemma submitAnswer_progressInvariant:
  assumes inv: "progressInvariant db"
    and run: "submitAnswer uid sid cid answer timeMs now db = (r, db')"
  shows "progressInvariant db'"
proof (cases r)
  case (Inl e)
  with run have "db' = db"
    unfolding submitAnswer_def Let_def by (auto split: option.splits if_splits)
  with inv show ?thesis by simp
next
  case (Inr ar)
  note ok = run [unfolded Inr]
  have up: "userProgress db' = userProgress db"
    using ok unfolding submitAnswer_def Let_def updateSession_def
    by (auto split: option.splits if_splits)
  show ?thesis
  proof (rule progressInvariant_sessions [OF inv up])
    fix u m assume "completedSessions db u m \<noteq> []"
    from completedSessions_score_update [OF this,
        of "\<lambda>s. rowId s = sid \<and> AnswerResult.isCorrect ar" "\<lambda>s. QuizSessionRow.score s + 1"]
    show "completedSessions db' u m \<noteq> []"
      by (simp add: completedSessions_def submitAnswer_sessions [OF ok])
  qed
qed

lemma submitAnswersBatch_progressInvariant:
  assumes inv: "progressInvariant db"
    and run: "submitAnswersBatch uid sid batch now db = (r, db')"
  shows "progressInvariant db'"
proof (cases r)
  case (Inl e)
  with run have "db' = db"
    unfolding submitAnswersBatch_def Let_def by (auto split: option.splits if_splits)
  with inv show ?thesis by simp
next
  case (Inr br)
  note ok = run [unfolded Inr]
  note eff = submitAnswersBatch_effect [OF ok]
  have up: "userProgress db' = userProgress db"
    using ok unfolding submitAnswersBatch_def Let_def updateSession_def
    by (auto split: option.splits if_splits)
  show ?thesis
  proof (rule progressInvariant_sessions [OF inv up])
    fix u m assume "completedSessions db u m \<noteq> []"
    from completedSessions_score_update [OF this, of "\<lambda>s. rowId s = sid"
        "\<lambda>s. int (length (filter BatchAnswer.isCorrect batch))"]
    show "completedSessions db' u m \<noteq> []"
      using eff by (simp add: completedSessions_def)
  qed
qed

lemma startQuiz_progressInvariant:
  assumes inv: "progressInvariant db"
    and run: "startQuiz rs newId now uid mid config db = (r, db')"
  shows "progressInvariant db'"
proof -
  have "db' = db \<or> (\<exists>row. db' = db\<lparr>sessions := sessions db @ [row]\<rparr>)"
    using run unfolding startQuiz_def Let_def case_prod_unfold
    by (auto split: option.splits if_splits)
  then show ?thesis
  proof
    assume "db' = db" with inv show ?thesis by simp
  next
    assume "\<exists>row. db' = db\<lparr>sessions := sessions db @ [row]\<rparr>"
    then obtain row where d: "db' = db\<lparr>sessions := sessions db @ [row]\<rparr>" by blast
    show ?thesis
      by (rule progressInvariant_sessions [OF inv]) (simp_all add: d completedSessions_def)
  qed
qed

lemma completeQuiz_progressInvariant:
  assumes inv: "progressInvariant db"
    and run: "completeQuiz uid sid now db = (r, db')"
  shows "progressInvariant db'"
proof (cases r)
  case (Inl e)
  with run have "db' = db"
    unfolding completeQuiz_def Let_def by (auto split: option.splits if_splits)
  with inv show ?thesis by simp
next
  case (Inr qr)
  note ok = run [unfolded Inr]
  from completeQuiz_result [OF ok] obtain session where
    f: "find (\<lambda>s. rowId s = sid \<and> userId s = uid) (sessions db) = Some session"
    and up: "userProgress db' =
         (userProgress db)((uid, QuizSessionRow.moduleId session) \<mapsto> newModuleProgress qr)"
    by blast
  note ss = completeQuiz_sessions [OF ok]
  have idu: "rowId session = sid" "userId session = uid"
    using f by (auto simp: find_Some_iff)
  have keep: "completedSessions db' u m \<noteq> []" if "completedSessions db u m \<noteq> []" for u m
    using completedSessions_completedAt_update [OF that, of "\<lambda>s. rowId s = sid" now]
    by (simp add: completedSessions_def ss)
  have new: "completedSessions db' uid (QuizSessionRow.moduleId session) \<noteq> []"
    unfolding completedSessions_def ss
    by (rule filter_map_hit [OF f]) (simp add: idu)
  show ?thesis
    unfolding progressInvariant_def
  proof (intro allI impI)
    fix u m assume h: "userProgress db' (u, m) \<noteq> None"
    show "completedSessions db' u m \<noteq> []"
    proof (cases "(u, m) = (uid, QuizSessionRow.moduleId session)")
      case True
      with new show ?thesis by simp
    next
      case False
      with h have "userProgress db (u, m) \<noteq> None"
        unfolding up by (auto split: if_splits)
      with inv have "completedSessions db u m \<noteq> []" unfolding progressInvariant_def by blast
      then show ?thesis by (rule keep)
    qed
  qed
qed

text \<open>
  C6. When \<open>completeQuiz\<close> returns its result, \<open>unlockedNextModule\<close> is true exactly when
  the stored progress of the module was below 80 before the update and is at least 80 after
  it, and \<open>isModuleCompleted\<close> is true exactly when it was below 100 before and is at
  least 100 after; \<open>newModuleProgress\<close> is the stored progress after the update. So each
  flag is false when its threshold was already met before. The comparisons are those of the
  source, false on NaN; a stored NaN comes from a completed session without items, and then
  the new progress is NaN again and both flags are false.
\<close>

theorem completeQuiz_flags:
  assumes inv: "progressInvariant db"
    and run: "completeQuiz uid sid now db = (Inr r, db')"
  shows "\<exists>session. find (\<lambda>s. rowId s = sid \<and> userId s = uid) (sessions db) = Some session
     \<and> newModuleProgress r = storedProgress db' uid (QuizSessionRow.moduleId session)
     \<and> unlockedNextModule r =
          (js_lt (storedProgress db uid (QuizSessionRow.moduleId session)) (Finite 80)
           \<and> js_ge (storedProgress db' uid (QuizSessionRow.moduleId session)) (Finite 80))
     \<and> isModuleCompleted r =
          (js_lt (storedProgress db uid (QuizSessionRow.moduleId session)) (Finite 100)
           \<and> js_ge (storedProgress db' uid (QuizSessionRow.moduleId session)) (Finite 100))"
proof -
  from completeQuiz_result [OF run] obtain session where
    f: "find (\<lambda>s. rowId s = sid \<and> userId s = uid) (sessions db) = Some session"
    and new: "newModuleProgress r =
         calculateNewProgress (storedProgress db uid (QuizSessionRow.moduleId session))
           (percentage r)
           (int (length (completedSessions db uid (QuizSessionRow.moduleId session))) + 1)"
    and up: "userProgress db' =
         (userProgress db)((uid, QuizSessionRow.moduleId session) \<mapsto> newModuleProgress r)"
    and u: "unlockedNextModule r =
         (\<not> js_ge (storedProgress db uid (QuizSessionRow.moduleId session)) (Finite 80)
          \<and> js_ge (newModuleProgress r) (Finite 80))"
    and c: "isModuleCompleted r =
         (js_ge (newModuleProgress r) (Finite 100)
          \<and> \<not> js_ge (storedProgress db uid (QuizSessionRow.moduleId session)) (Finite 100))"
    by blast
  let ?mid = "QuizSessionRow.moduleId session"
  let ?old = "storedProgress db uid ?mid"
  have st: "storedProgress db' uid ?mid = newModuleProgress r"
    by (simp add: storedProgress_def up)
  have flags: "unlockedNextModule r = (js_lt ?old (Finite 80) \<and> js_ge (newModuleProgress r) (Finite 80))
       \<and> isModuleCompleted r = (js_lt ?old (Finite 100) \<and> js_ge (newModuleProgress r) (Finite 100))"
  proof (cases "?old = NaN")
    case True
    then have "userProgress db (uid, ?mid) \<noteq> None"
      by (auto simp: storedProgress_def split: option.splits)
    with inv have "completedSessions db uid ?mid \<noteq> []"
      unfolding progressInvariant_def by blast
    then have "1 < int (length (completedSessions db uid ?mid)) + 1"
      by (cases "completedSessions db uid ?mid") simp_all
    then have "newModuleProgress r = NaN"
      unfolding new True by (rule calculateNewProgress_NaN)
    then show ?thesis
      using u c True by (simp add: js_lt_def)
  next
    case False
    then show ?thesis
      using u c by (auto simp: js_lt_Finite)
  qed
  show ?thesis
    by (rule exI [of _ session]) (simp add: f st flags)
qed

theorem completeQuiz_flags_witness:
  "progressInvariant exDb
   \<and> completeQuiz ''u'' ''s1'' 100 exDb = (Inr exResult, exDbDone)
   \<and> storedProgress exDb ''u'' ''m'' = Finite 79
   \<and> storedProgress exDbDone ''u'' ''m'' = Finite 81
   \<and> unlockedNextModule exResult \<and> \<not> isModuleCompleted exResult
   \<and> progressInvariant exDbNoItems
   \<and> completeQuiz ''u'' ''s3'' 40 exDbNoItems = (Inr exResultNoItems, exDbNoItemsDone)
   \<and> storedProgress exDbNoItems ''u'' ''m'' = Finite 0
   \<and> storedProgress exDbNoItemsDone ''u'' ''m'' = NaN
   \<and> \<not> unlockedNextModule exResultNoItems \<and> \<not> isModuleCompleted exResultNoItems"
proof -
  have i1: "progressInvariant exDb"
    by (auto simp: progressInvariant_def exDb_def completedSessions_def split: if_splits)
  have i2: "progressInvariant exDbNoItems"
    by (rule progressInvariant_empty) (simp add: exDbNoItems_def)
  note a = completeQuiz_flags [OF i1 exDb_completeQuiz]
  note b = completeQuiz_flags [OF i2 exDbNoItems_completeQuiz]
  have "storedProgress exDb ''u'' ''m'' = Finite 79"
    "storedProgress exDbDone ''u'' ''m'' = Finite 81"
    "storedProgress exDbNoItems ''u'' ''m'' = Finite 0"
    "storedProgress exDbNoItemsDone ''u'' ''m'' = NaN"
    by (simp_all add: storedProgress_def exDb_def exDbDone_def exDbNoItems_def exDbNoItemsDone_def)
  moreover have "unlockedNextModule exResult \<and> \<not> isModuleCompleted exResult"
    by (simp add: exResult_def)
  moreover have "\<not> unlockedNextModule exResultNoItems \<and> \<not> isModuleCompleted exResultNoItems"
    by (simp add: exResultNoItems_def)
  ultimately show ?thesis
    using i1 i2 a b exDb_completeQuiz exDbNoItems_completeQuiz by blast
qed

text \<open>
  C7. When every stored row of session \<open>sid\<close> has a completion timestamp, \<open>submitAnswer\<close>
  and \<open>submitAnswersBatch\<close> fail with "Quiz session not found or already completed" and
  \<open>completeQuiz\<close> fails with "Quiz session already completed" (with "Quiz session not
  found" when the session is not the caller's), and each leaves the whole database as it
  was. After a successful \<open>completeQuiz\<close> the session is in that state, so a second
  \<open>completeQuiz\<close> on it fails and changes nothing.
\<close>

theorem completed_session_rejects:
  "(s \<in> set (sessions db) \<and> rowId s = sid
      \<and> (\<forall>t\<in>set (sessions db). rowId t = sid \<longrightarrow> completedAt t \<noteq> None)
    \<longrightarrow> submitAnswer uid sid cid answer timeMs now db = (Inl SessionNotFoundOrCompleted, db)
      \<and> submitAnswersBatch uid sid batch now db = (Inl SessionNotFoundOrCompleted, db)
      \<and> completeQuiz uid sid now db =
          (Inl (if find (\<lambda>s. rowId s = sid \<and> userId s = uid) (sessions db) = None
                then SessionNotFound else SessionAlreadyCompleted), db)
      \<and> (userId s = uid \<longrightarrow> completeQuiz uid sid now db = (Inl SessionAlreadyCompleted, db)))
   \<and> (completeQuiz uid sid nowA dbA = (Inr r, dbB)
    \<longrightarrow> (\<forall>t\<in>set (sessions dbB). rowId t = sid \<longrightarrow> completedAt t \<noteq> None)
      \<and> completeQuiz uid sid now dbB = (Inl SessionAlreadyCompleted, dbB))"
proof (intro conjI impI)
  let ?P = "\<lambda>s. rowId s = sid \<and> userId s = uid"
  assume h: "s \<in> set (sessions db) \<and> rowId s = sid
      \<and> (\<forall>t\<in>set (sessions db). rowId t = sid \<longrightarrow> completedAt t \<noteq> None)"
  then have none: "findActiveSession db sid uid = None"
    unfolding findActiveSession_def by (intro find_completed_None) simp
  show "submitAnswer uid sid cid answer timeMs now db = (Inl SessionNotFoundOrCompleted, db)"
    by (simp add: submitAnswer_def none)
  show "submitAnswersBatch uid sid batch now db = (Inl SessionNotFoundOrCompleted, db)"
    by (simp add: submitAnswersBatch_def none)
  show c: "completeQuiz uid sid now db =
          (Inl (if find ?P (sessions db) = None
                then SessionNotFound else SessionAlreadyCompleted), db)"
  proof (cases "find ?P (sessions db)")
    case None
    then show ?thesis by (simp add: completeQuiz_def)
  next
    case (Some s1)
    then have "s1 \<in> set (sessions db)" "rowId s1 = sid"
      by (auto simp: find_Some_iff)
    with h have "completedAt s1 \<noteq> None" by blast
    with Some show ?thesis by (simp add: completeQuiz_def)
  qed
  assume "userId s = uid"
  then have "find ?P (sessions db) \<noteq> None"
    using h by (auto simp: find_None_iff)
  then show "completeQuiz uid sid now db = (Inl SessionAlreadyCompleted, db)"
    using c by simp
next
  let ?P = "\<lambda>s. rowId s = sid \<and> userId s = uid"
  assume ok: "completeQuiz uid sid nowA dbA = (Inr r, dbB)"
  note ss = completeQuiz_sessions [OF ok]
  show "\<forall>t\<in>set (sessions dbB). rowId t = sid \<longrightarrow> completedAt t \<noteq> None"
    using completed_after_update [of sid nowA "sessions dbA"]
    unfolding ss list_all_iff .
  from ok obtain s0 where s0: "find ?P (sessions dbA) = Some s0"
    by (cases "find ?P (sessions dbA)") (simp_all add: completeQuiz_def)
  have "find ?P (sessions dbB)
        = Some (if rowId s0 = sid then s0\<lparr>completedAt := Some nowA\<rparr> else s0)"
    unfolding ss by (subst find_map_same) (auto simp: s0)
  moreover have "rowId s0 = sid" using s0 by (auto simp: find_Some_iff)
  ultimately show "completeQuiz uid sid now dbB = (Inl SessionAlreadyCompleted, dbB)"
    by (simp add: completeQuiz_def)
qed

theorem completed_session_rejects_witness:
  "sessions exDb ! 0 \<in> set (sessions exDb) \<and> rowId (sessions exDb ! 0) = ''s0''
   \<and> map completedAt (filter (\<lambda>t. rowId t = ''s0'') (sessions exDb)) = [Some 10]
   \<and> userId (sessions exDb ! 0) = ''u''
   \<and> submitAnswer ''u'' ''s0'' ''c1'' ''a'' (Some 900) 50 exDb = (Inl SessionNotFoundOrCompleted, exDb)
   \<and> submitAnswersBatch ''u'' ''s0'' [handleAnswer (exQuestion ''c1'' ''a'') ''a'' 900] 50 exDb
        = (Inl SessionNotFoundOrCompleted, exDb)
   \<and> completeQuiz ''u'' ''s0'' 50 exDb = (Inl SessionAlreadyCompleted, exDb)
   \<and> completeQuiz ''u'' ''s1'' 100 exDb = (Inr exResult, exDbDone)
   \<and> completeQuiz ''u'' ''s1'' 200 exDbDone = (Inl SessionAlreadyCompleted, exDbDone)"
proof -
  have h: "sessions exDb ! 0 \<in> set (sessions exDb) \<and> rowId (sessions exDb ! 0) = ''s0''
     \<and> (\<forall>t\<in>set (sessions exDb). rowId t = ''s0'' \<longrightarrow> completedAt t \<noteq> None)"
    by (simp add: exDb_def)
  have u: "userId (sessions exDb ! 0) = ''u''"
    by (simp add: exDb_def)
  note first = completed_session_rejects [where s = "sessions exDb ! 0" and db = exDb
      and sid = "''s0''" and uid = "''u''" and cid = "''c1''" and answer = "''a''"
      and timeMs = "Some 900" and now = 50
      and batch = "[handleAnswer (exQuestion ''c1'' ''a'') ''a'' 900]", THEN conjunct1, rule_format, OF h]
  note twice = completed_session_rejects [where sid = "''s1''" and uid = "''u''" and now = 200
      and dbA = exDb and nowA = 100 and r = exResult and dbB = exDbDone,
      THEN conjunct2, rule_format, OF exDb_completeQuiz]
  have f: "map completedAt (filter (\<lambda>t. rowId t = ''s0'') (sessions exDb)) = [Some 10]"
    by (simp add: exDb_def)
  show ?thesis
    using h u f first twice exDb_completeQuiz by blast
qed

text \<open>
  C8. When an answer for the pair (session, character) is already stored, \<open>submitAnswer\<close>
  for that pair fails and leaves the database as it was, with "Character already answered in
  this session" when the session is the caller's and active. In particular, after a
  successful \<open>submitAnswer\<close> a second one for the same pair fails with that error and
  changes nothing: the first answer, the score and the stats stand.
\<close>

theorem duplicate_answer_rejected:
  "(a \<in> set (answers db) \<and> QuizAnswer.sessionId a = sid \<and> QuizAnswer.characterId a = cid
    \<longrightarrow> (\<exists>e. submitAnswer uid sid cid answer timeMs now db = (Inl e, db))
      \<and> (findActiveSession db sid uid \<noteq> None
          \<longrightarrow> submitAnswer uid sid cid answer timeMs now db = (Inl CharacterAlreadyAnswered, db)))
   \<and> (submitAnswer uid sid cid answerA timeA nowA dbA = (Inr r, dbB)
    \<longrightarrow> submitAnswer uid sid cid answer timeMs now dbB = (Inl CharacterAlreadyAnswered, dbB))"
proof (intro conjI impI)
  let ?Q = "\<lambda>a. QuizAnswer.sessionId a = sid \<and> QuizAnswer.characterId a = cid"
  assume h: "a \<in> set (answers db) \<and> QuizAnswer.sessionId a = sid \<and> QuizAnswer.characterId a = cid"
  then have hit: "find ?Q (answers db) \<noteq> None"
    by (auto simp: find_None_iff)
  then obtain b where b: "find ?Q (answers db) = Some b" by auto
  show "\<exists>e. submitAnswer uid sid cid answer timeMs now db = (Inl e, db)"
    by (cases "findActiveSession db sid uid") (simp_all add: submitAnswer_def b)
  assume "findActiveSession db sid uid \<noteq> None"
  then show "submitAnswer uid sid cid answer timeMs now db = (Inl CharacterAlreadyAnswered, db)"
    by (auto simp: submitAnswer_def b)
next
  let ?Q = "\<lambda>a. QuizAnswer.sessionId a = sid \<and> QuizAnswer.characterId a = cid"
  let ?A = "\<lambda>s. rowId s = sid \<and> userId s = uid \<and> completedAt s = None"
  assume ok: "submitAnswer uid sid cid answerA timeA nowA dbA = (Inr r, dbB)"
  from submitAnswer_answers [OF ok] obtain ch :: QuizCharacter where
    "answers dbB = answers dbA @
       [\<lparr>QuizAnswer.sessionId = sid, characterId = cid, userAnswer = answerA,
         QuizAnswer.isCorrect = (toLowerCase answerA = toLowerCase (reading ch)),
         responseTimeMs = timeA\<rparr>]"
    by blast
  then have "find ?Q (answers dbB) \<noteq> None"
    by (simp only: find_append_hit QuizAnswer.simps simp_thms)
  then obtain b where b: "find ?Q (answers dbB) = Some b" by auto
  from submitAnswer_active [OF ok] obtain s0 where s0: "find ?A (sessions dbA) = Some s0"
    by (auto simp: findActiveSession_def)
  have "find ?A (sessions dbB) \<noteq> None"
    unfolding submitAnswer_sessions [OF ok] by (subst find_map_same) (auto simp: s0)
  then obtain s1 where "findActiveSession dbB sid uid = Some s1"
    by (auto simp: findActiveSession_def)
  then show "submitAnswer uid sid cid answer timeMs now dbB = (Inl CharacterAlreadyAnswered, dbB)"
    by (simp add: submitAnswer_def b)
qed

theorem duplicate_answer_rejected_witness:
  "(exAnswer \<in> set (answers exDbAnswered) \<and> QuizAnswer.sessionId exAnswer = ''s2''
      \<and> QuizAnswer.characterId exAnswer = ''c1'')
   \<and> findActiveSession exDbAnswered ''s2'' ''u'' \<noteq> None
   \<and> submitAnswer ''u'' ''s2'' ''c1'' ''A'' (Some 900) 50 exDb =
       (Inr \<lparr>AnswerResult.isCorrect = True, correctAnswer = ''a'', streakCount = 1, accuracy = 1\<rparr>,
        exDbAnswered)
   \<and> submitAnswer ''u'' ''s2'' ''c1'' ''x'' (Some 700) 60 exDbAnswered =
       (Inl CharacterAlreadyAnswered, exDbAnswered)"
proof -
  have h: "exAnswer \<in> set (answers exDbAnswered) \<and> QuizAnswer.sessionId exAnswer = ''s2''
      \<and> QuizAnswer.characterId exAnswer = ''c1''"
    by (simp add: exDbAnswered_def exAnswer_def)
  have act: "findActiveSession exDbAnswered ''s2'' ''u'' \<noteq> None"
    by (simp add: findActiveSession_def exDbAnswered_def exDb_def)
  note dup = duplicate_answer_rejected [where a = exAnswer and db = exDbAnswered
      and sid = "''s2''" and cid = "''c1''" and uid = "''u''" and answer = "''x''"
      and timeMs = "Some 700" and now = 60, THEN conjunct1, rule_format, OF h]
  note again = duplicate_answer_rejected [where sid = "''s2''" and cid = "''c1''"
      and uid = "''u''" and answer = "''x''" and timeMs = "Some 700" and now = 60
      and answerA = "''A''" and timeA = "Some 900" and nowA = 50 and dbA = exDb
      and dbB = exDbAnswered, THEN conjunct2, rule_format, OF exDb_submitAnswer]
  show ?thesis
    using h act dup again exDb_submitAnswer by blast
qed

text \<open>
  C2, as stated, fails: the batch path sets the score to the number of submitted answers
  flagged correct, whatever \<open>totalItems\<close> is. Two answers flagged correct, submitted to a
  session of one item, give \<open>score = 2 > totalItems = 1\<close>.
\<close>

theorem batch_score_exceeds_totalItems:
  "submitAnswersBatch ''u'' ''s2'' exBatch 50 exDb =
     (Inr \<lparr>BatchSubmitResult.score = 2, totalItems = 2\<rparr>, exDbBatched)
   \<and> rowId (sessions exDbBatched ! 2) = ''s2''
   \<and> QuizSessionRow.score (sessions exDbBatched ! 2) = 2
   \<and> QuizSessionRow.totalItems (sessions exDbBatched ! 2) = 1
   \<and> \<not> QuizSessionRow.score (sessions exDbBatched ! 2)
         \<le> QuizSessionRow.totalItems (sessions exDbBatched ! 2)"
  by (simp add: exDb_submitAnswersBatch) (simp add: exDbBatched_def exDb_def)

text \<open>
  C2, amended. \<open>submitAnswersBatch\<close> sets the score of the session to the number of
  submitted answers flagged correct, which lies between 0 and the number of submitted
  answers, so \<open>0 \<le> score \<le> totalItems\<close> holds after it when the client submits at most
  \<open>totalItems\<close> answers. \<open>submitAnswer\<close> adds 1 to the score of the session for a correct
  answer and nothing otherwise. \<open>completeQuiz\<close> changes no score. None of the three
  changes \<open>totalItems\<close>.
\<close>

theorem session_score_rule:
  "(submitAnswersBatch uid sid batch now db = (Inr br, dbB) \<longrightarrow>
      BatchSubmitResult.score br = int (length (filter BatchAnswer.isCorrect batch))
      \<and> 0 \<le> BatchSubmitResult.score br
      \<and> BatchSubmitResult.score br \<le> int (length batch)
      \<and> (\<forall>s'\<in>set (sessions dbB). rowId s' = sid \<longrightarrow>
            QuizSessionRow.score s' = BatchSubmitResult.score br)
      \<and> (\<forall>s'\<in>set (sessions dbB).
            rowId s' = sid \<and> int (length batch) \<le> QuizSessionRow.totalItems s' \<longrightarrow>
            0 \<le> QuizSessionRow.score s'
            \<and> QuizSessionRow.score s' \<le> QuizSessionRow.totalItems s')
      \<and> map QuizSessionRow.totalItems (sessions dbB) = map QuizSessionRow.totalItems (sessions db))
   \<and> (submitAnswer uid sid cid answer timeMs now db = (Inr ar, dbS) \<longrightarrow>
      map QuizSessionRow.score (sessions dbS) =
        map (\<lambda>s. QuizSessionRow.score s
                  + (if rowId s = sid \<and> AnswerResult.isCorrect ar then 1 else 0)) (sessions db)
      \<and> map QuizSessionRow.totalItems (sessions dbS) = map QuizSessionRow.totalItems (sessions db))
   \<and> (completeQuiz uid sid now db = (Inr qr, dbC) \<longrightarrow>
      map QuizSessionRow.score (sessions dbC) = map QuizSessionRow.score (sessions db)
      \<and> map QuizSessionRow.totalItems (sessions dbC) = map QuizSessionRow.totalItems (sessions db))"
proof (intro conjI impI)
  assume ok: "submitAnswersBatch uid sid batch now db = (Inr br, dbB)"
  note eff = submitAnswersBatch_effect [OF ok]
  let ?n = "int (length (filter BatchAnswer.isCorrect batch))"
  from eff show sc: "BatchSubmitResult.score br = ?n" by simp
  show "0 \<le> BatchSubmitResult.score br" unfolding sc by simp
  show "BatchSubmitResult.score br \<le> int (length batch)" unfolding sc by simp
  have ss: "sessions dbB =
      map (\<lambda>s. if rowId s = sid then s\<lparr>QuizSessionRow.score := ?n\<rparr> else s) (sessions db)"
    using eff by blast
  show rows: "\<forall>s'\<in>set (sessions dbB). rowId s' = sid \<longrightarrow>
          QuizSessionRow.score s' = BatchSubmitResult.score br"
    using batch_rows_score [of sid ?n "sessions db"] unfolding ss sc list_all_iff .
  show "\<forall>s'\<in>set (sessions dbB).
          rowId s' = sid \<and> int (length batch) \<le> QuizSessionRow.totalItems s' \<longrightarrow>
          0 \<le> QuizSessionRow.score s' \<and> QuizSessionRow.score s' \<le> QuizSessionRow.totalItems s'"
  proof (intro ballI impI)
    fix s' assume m: "s' \<in> set (sessions dbB)"
      and h: "rowId s' = sid \<and> int (length batch) \<le> QuizSessionRow.totalItems s'"
    from rows m h have "QuizSessionRow.score s' = ?n" unfolding sc by blast
    moreover have "?n \<le> int (length batch)" by simp
    ultimately show "0 \<le> QuizSessionRow.score s'
        \<and> QuizSessionRow.score s' \<le> QuizSessionRow.totalItems s'"
      using h by linarith
  qed
  show "map QuizSessionRow.totalItems (sessions dbB) = map QuizSessionRow.totalItems (sessions db)"
    unfolding ss by (rule map_totalItems_update)
next
  assume ok: "submitAnswer uid sid cid answer timeMs now db = (Inr ar, dbS)"
  note ss = submitAnswer_sessions [OF ok]
  show "map QuizSessionRow.score (sessions dbS) =
        map (\<lambda>s. QuizSessionRow.score s
                  + (if rowId s = sid \<and> AnswerResult.isCorrect ar then 1 else 0)) (sessions db)"
    unfolding ss by (rule map_score_increment)
  show "map QuizSessionRow.totalItems (sessions dbS) = map QuizSessionRow.totalItems (sessions db)"
    unfolding ss by (rule map_totalItems_update)
next
  assume ok: "completeQuiz uid sid now db = (Inr qr, dbC)"
  note ss = completeQuiz_sessions [OF ok]
  show "map QuizSessionRow.score (sessions dbC) = map QuizSessionRow.score (sessions db)"
    unfolding ss by (rule map_totalItems_update)
  show "map QuizSessionRow.totalItems (sessions dbC) = map QuizSessionRow.totalItems (sessions db)"
    unfolding ss by (rule map_totalItems_update)
qed

theorem session_score_rule_witness:
  "submitAnswersBatch ''u'' ''s2'' exBatch 50 exDb =
     (Inr \<lparr>BatchSubmitResult.score = 2, totalItems = 2\<rparr>, exDbBatched)
   \<and> map QuizSessionRow.score (sessions exDbBatched) = [5, 21, 2]
   \<and> map QuizSessionRow.totalItems (sessions exDbBatched) = [5, 25, 1]
   \<and> map QuizSessionRow.score (sessions exDbAnswered) = [5, 21, 1]
   \<and> map QuizSessionRow.totalItems (sessions exDbAnswered) = [5, 25, 1]
   \<and> map QuizSessionRow.score (sessions exDbDone) = [5, 21, 0]
   \<and> map QuizSessionRow.totalItems (sessions exDbDone) = [5, 25, 1]"
proof -
  note b = session_score_rule [where uid = "''u''" and sid = "''s2''" and batch = exBatch
      and now = 50 and db = exDb and dbB = exDbBatched, THEN conjunct1, rule_format,
      OF exDb_submitAnswersBatch]
  note a = session_score_rule [where uid = "''u''" and sid = "''s2''" and cid = "''c1''"
      and answer = "''A''" and timeMs = "Some 900" and now = 50 and db = exDb
      and dbS = exDbAnswered, THEN conjunct2, THEN conjunct1, rule_format, OF exDb_submitAnswer]
  note c = session_score_rule [where uid = "''u''" and sid = "''s1''" and now = 100
      and db = exDb and dbC = exDbDone, THEN conjunct2, THEN conjunct2, rule_format,
      OF exDb_completeQuiz]
  have e: "map QuizSessionRow.score (sessions exDb) = [5, 21, 0]"
    "map QuizSessionRow.totalItems (sessions exDb) = [5, 25, 1]"
    "map rowId (sessions exDb) = [''s0'', ''s1'', ''s2'']"
    by (simp_all add: exDb_def)
  have "map QuizSessionRow.score (sessions exDbBatched) = [5, 21, 2]"
    by (simp add: exDbBatched_def exDb_def)
  moreover have "map QuizSessionRow.score (sessions exDbAnswered) = [5, 21, 1]"
    using a by (simp add: exDb_def)
  ultimately show ?thesis
    using a b c e exDb_submitAnswersBatch by simp
qed

text \<open>
  C3, as stated, fails on the batch path: \<open>submitAnswersBatch\<close> stores the flag the client
  sent. The answer \<open>x\<close> for a character whose stored reading is \<open>a\<close>, sent with
  \<open>isCorrect = True\<close>, is stored as correct.
\<close>

theorem batch_stores_client_flag:
  "submitAnswersBatch ''u'' ''s2'' exBatch 50 exDb =
     (Inr \<lparr>BatchSubmitResult.score = 2, totalItems = 2\<rparr>, exDbBatched)
   \<and> characters exDb ''c1'' = Some (exChar ''c1'' ''a'')
   \<and> answers exDbBatched ! 0 =
       \<lparr>QuizAnswer.sessionId = ''s2'', characterId = ''c1'', userAnswer = ''x'',
        isCorrect = True, responseTimeMs = Some 5\<rparr>
   \<and> (toLowerCase ''x'' = toLowerCase (reading (exChar ''c1'' ''a''))) = False"
  by (simp add: exDb_submitAnswersBatch)
     (simp add: exDbBatched_def exDb_def exChar_def toLowerCase_examples)

text \<open>
  C3, amended. On the \<open>submitAnswer\<close> path the stored flag is the server's comparison of
  the lower-cased answer with the lower-cased stored reading of the character. On the
  \<open>submitAnswersBatch\<close> path the stored flag is the flag of the submitted answer; the
  quiz container computes that flag with the same comparison, against the question's
  \<open>correctAnswer\<close>.
\<close>

theorem stored_correctness_rule:
  "(submitAnswer uid sid cid answer timeMs now db = (Inr ar, dbS) \<longrightarrow>
      (\<exists>ch. characters db cid = Some ch
         \<and> answers dbS = answers db @
             [\<lparr>QuizAnswer.sessionId = sid, characterId = cid, userAnswer = answer,
               QuizAnswer.isCorrect = (toLowerCase answer = toLowerCase (reading ch)),
               responseTimeMs = timeMs\<rparr>]))
   \<and> (submitAnswersBatch uid sid batch now db = (Inr br, dbB) \<longrightarrow>
      answers dbB = answers db @
        map (\<lambda>b. \<lparr>QuizAnswer.sessionId = sid, characterId = BatchAnswer.characterId b,
                   userAnswer = BatchAnswer.userAnswer b,
                   QuizAnswer.isCorrect = BatchAnswer.isCorrect b,
                   responseTimeMs = Some (BatchAnswer.responseTimeMs b)\<rparr>) batch)
   \<and> BatchAnswer.isCorrect (handleAnswer q text ms)
       = (toLowerCase text = toLowerCase (QuizQuestion.correctAnswer q))"
proof (intro conjI impI)
  assume "submitAnswer uid sid cid answer timeMs now db = (Inr ar, dbS)"
  then show "\<exists>ch. characters db cid = Some ch
         \<and> answers dbS = answers db @
             [\<lparr>QuizAnswer.sessionId = sid, characterId = cid, userAnswer = answer,
               QuizAnswer.isCorrect = (toLowerCase answer = toLowerCase (reading ch)),
               responseTimeMs = timeMs\<rparr>]"
    by (rule submitAnswer_answers)
next
  assume "submitAnswersBatch uid sid batch now db = (Inr br, dbB)"
  from submitAnswersBatch_effect [OF this]
  show "answers dbB = answers db @
        map (\<lambda>b. \<lparr>QuizAnswer.sessionId = sid, characterId = BatchAnswer.characterId b,
                   userAnswer = BatchAnswer.userAnswer b,
                   QuizAnswer.isCorrect = BatchAnswer.isCorrect b,
                   responseTimeMs = Some (BatchAnswer.responseTimeMs b)\<rparr>) batch"
    by blast
next
  show "BatchAnswer.isCorrect (handleAnswer q text ms)
       = (toLowerCase text = toLowerCase (QuizQuestion.correctAnswer q))"
    by (simp add: handleAnswer_def)
qed

theorem stored_correctness_rule_witness:
  "submitAnswer ''u'' ''s2'' ''c1'' ''A'' (Some 900) 50 exDb =
       (Inr \<lparr>AnswerResult.isCorrect = True, correctAnswer = ''a'', streakCount = 1, accuracy = 1\<rparr>,
        exDbAnswered)
   \<and> map QuizAnswer.isCorrect (answers exDbAnswered) = [True]
   \<and> (toLowerCase ''A'' = toLowerCase (reading (exChar ''c1'' ''a'')))
   \<and> submitAnswersBatch ''u'' ''s2'' exBatch 50 exDb =
     (Inr \<lparr>BatchSubmitResult.score = 2, totalItems = 2\<rparr>, exDbBatched)
   \<and> map QuizAnswer.isCorrect (answers exDbBatched) = map BatchAnswer.isCorrect exBatch"
proof -
  note a = stored_correctness_rule [where uid = "''u''" and sid = "''s2''" and cid = "''c1''"
      and answer = "''A''" and timeMs = "Some 900" and now = 50 and db = exDb
      and dbS = exDbAnswered, THEN conjunct1, rule_format, OF exDb_submitAnswer]
  note b = stored_correctness_rule [where uid = "''u''" and sid = "''s2''" and batch = exBatch
      and now = 50 and db = exDb and dbB = exDbBatched, THEN conjunct2, THEN conjunct1,
      rule_format, OF exDb_submitAnswersBatch]
  have "map QuizAnswer.isCorrect (answers exDbAnswered) = [True]"
    using a by (simp add: exDb_def exChar_def toLowerCase_examples)
  moreover have "map QuizAnswer.isCorrect (answers exDbBatched) = map BatchAnswer.isCorrect exBatch"
    unfolding b by (simp add: exDb_def comp_def)
  moreover have "toLowerCase ''A'' = toLowerCase (reading (exChar ''c1'' ''a''))"
    by (simp add: exChar_def toLowerCase_examples)
  ultimately show ?thesis
    using exDb_submitAnswer exDb_submitAnswersBatch by simp
qed

subsection \<open>Quiz generation\<close>

lemma random_index_bound:
  assumes "0 \<le> r" "r < 1" "0 < n"
  shows "nat \<lfloor>r * real n\<rfloor> < n"
proof -
  have "r * real n < real n" using assms by simp
  then have "\<lfloor>r * real n\<rfloor> < int n" by (simp add: floor_less_iff)
  moreover have "0 \<le> \<lfloor>r * real n\<rfloor>" using assms by simp
  ultimately show ?thesis by linarith
qed

lemma shuffleLoop_mset:
  "mathRandomContract rs \<Longrightarrow> i < length xs \<or> i = 0 \<Longrightarrow>
   mset (fst (shuffleLoop rs p i xs)) = mset xs"
proof (induction i arbitrary: p xs)
  case 0
  then show ?case by simp
next
  case (Suc i)
  let ?j = "nat \<lfloor>rs p * real (Suc i + 1)\<rfloor>"
  let ?ys = "xs[Suc i := xs ! ?j, ?j := xs ! Suc i]"
  from Suc.prems have len: "Suc i < length xs" by simp
  from Suc.prems(1) have "0 \<le> rs p" "rs p < 1" by (simp_all add: mathRandomContract_def)
  then have "?j < Suc i + 1" by (intro random_index_bound) simp_all
  with len have j: "?j < length xs" by simp
  have "mset ?ys = mset xs" using len j by (simp add: mset_swap)
  moreover have "mset (fst (shuffleLoop rs (Suc p) i ?ys)) = mset ?ys"
    using len by (intro Suc.IH Suc.prems(1)) simp
  ultimately show ?case by (simp add: Let_def)
qed

lemma shuffleArray_mset:
  "mathRandomContract rs \<Longrightarrow> mset (fst (shuffleArray rs p xs)) = mset xs"
  unfolding shuffleArray_def by (rule shuffleLoop_mset) (simp, cases xs, simp_all)

lemma shuffleArray_set:
  "mathRandomContract rs \<Longrightarrow> set (fst (shuffleArray rs p xs)) = set xs"
  by (metis shuffleArray_mset set_mset_mset)

lemma shuffleArray_length:
  "mathRandomContract rs \<Longrightarrow> length (fst (shuffleArray rs p xs)) = length xs"
  by (metis shuffleArray_mset size_mset)

lemma shuffleArray_distinct:
  "mathRandomContract rs \<Longrightarrow> distinct (fst (shuffleArray rs p xs)) = distinct xs"
  by (metis shuffleArray_mset mset_eq_imp_distinct_iff)

lemma slice0_take: "\<exists>n. slice0 xs e = take n xs"
  by (auto simp: slice0_def)

lemma slice0_length:
  "0 \<le> e \<Longrightarrow> length (slice0 xs e) = min (nat e) (length xs)"
  by (simp add: slice0_def)

lemma generateWrongOptions_props:
  assumes "mathRandomContract rs"
  shows "set (fst (generateWrongOptions rs p c allReadings n)) \<subseteq> set allReadings - {c}"
    and "distinct allReadings \<Longrightarrow> distinct (fst (generateWrongOptions rs p c allReadings n))"
    and "0 \<le> n \<Longrightarrow> length (fst (generateWrongOptions rs p c allReadings n))
          = min (nat n) (length (filter (\<lambda>r. r \<noteq> c) allReadings))"
proof -
  let ?av = "filter (\<lambda>r. r \<noteq> c) allReadings"
  let ?sh = "fst (shuffleArray rs p ?av)"
  have g: "fst (generateWrongOptions rs p c allReadings n) = slice0 ?sh n"
    by (simp add: generateWrongOptions_def Let_def split: prod.splits)
  obtain k where k: "slice0 ?sh n = take k ?sh" using slice0_take by blast
  have "set (take k ?sh) \<subseteq> set ?sh" by (rule set_take_subset)
  also have "\<dots> = set ?av" using assms by (rule shuffleArray_set)
  also have "\<dots> \<subseteq> set allReadings - {c}" by auto
  finally show "set (fst (generateWrongOptions rs p c allReadings n)) \<subseteq> set allReadings - {c}"
    unfolding g k .
  show "distinct (fst (generateWrongOptions rs p c allReadings n))" if "distinct allReadings"
    unfolding g k using that assms by (simp add: shuffleArray_distinct)
  show "length (fst (generateWrongOptions rs p c allReadings n))
          = min (nat n) (length ?av)" if "0 \<le> n"
    unfolding g using that assms by (simp add: slice0_length shuffleArray_length)
qed

lemma splice1_mset:
  "i < length xs \<Longrightarrow> add_mset (f (xs ! i)) (mset (map f (splice1 xs i))) = mset (map f xs)"
proof -
  assume "i < length xs"
  then have "xs = take i xs @ xs ! i # drop (Suc i) xs" by (rule id_take_nth_drop)
  then have "mset (map f xs) = mset (map f (take i xs @ xs ! i # drop (Suc i) xs))" by simp
  then show ?thesis by (simp add: splice1_def)
qed

lemma splice1_length:
  "i < length xs \<Longrightarrow> length (splice1 xs i) = length xs - 1"
  by (simp add: splice1_def)

lemma selectLoop_mset:
  "mset (fst (selectLoop rs p sel av c))
     \<subseteq># mset sel + mset (map WeightedCharacter.character av)"
proof (induction rs p sel av c rule: selectLoop.induct)
  case (1 rs p sel av c)
  let ?i = "weightedRandomSelectIndex av (rs p)"
  show ?case
  proof (cases "int (length sel) < c \<and> length av > 0")
    case True
    then have i: "?i < length av" by (intro weightedRandomSelectIndex_bound) simp
    have "mset (fst (selectLoop rs (Suc p) (sel @ [WeightedCharacter.character (av ! ?i)])
             (splice1 av ?i) c))
          \<subseteq># mset (sel @ [WeightedCharacter.character (av ! ?i)])
              + mset (map WeightedCharacter.character (splice1 av ?i))"
      using True by (intro "1.IH") simp_all
    also have "\<dots> = mset sel + mset (map WeightedCharacter.character av)"
      using splice1_mset [OF i, of WeightedCharacter.character] by simp
    finally show ?thesis
      using True by (subst selectLoop.simps) (simp add: Let_def)
  next
    case False
    then show ?thesis by (subst selectLoop.simps) auto
  qed
qed

lemma selectLoop_length:
  "length (fst (selectLoop rs p sel av c)) =
     (if int (length sel) < c then min (nat c) (length sel + length av) else length sel)"
proof (induction rs p sel av c rule: selectLoop.induct)
  case (1 rs p sel av c)
  let ?i = "weightedRandomSelectIndex av (rs p)"
  show ?case
  proof (cases "int (length sel) < c \<and> length av > 0")
    case True
    then have i: "?i < length av" by (intro weightedRandomSelectIndex_bound) simp
    have "length (fst (selectLoop rs (Suc p) (sel @ [WeightedCharacter.character (av ! ?i)])
             (splice1 av ?i) c))
          = (if int (length (sel @ [WeightedCharacter.character (av ! ?i)])) < c
             then min (nat c) (length (sel @ [WeightedCharacter.character (av ! ?i)])
                    + length (splice1 av ?i))
             else length (sel @ [WeightedCharacter.character (av ! ?i)]))"
      using True by (intro "1.IH") simp_all
    also have "\<dots> = min (nat c) (length sel + length av)"
    proof -
      from True have l: "0 < length av" by simp
      have e: "length (sel @ [WeightedCharacter.character (av ! ?i)]) + length (splice1 av ?i)
                = length sel + length av"
        using l by (simp add: splice1_length [OF i])
      show ?thesis
      proof (cases "int (length (sel @ [WeightedCharacter.character (av ! ?i)])) < c")
        case True
        then show ?thesis by (simp only: e if_True)
      next
        case False
        with \<open>int (length sel) < c \<and> length av > 0\<close>
        have "c = int (length sel) + 1" by simp
        then have "nat c = length sel + 1" by simp
        with l False show ?thesis by (cases av) simp_all
      qed
    qed
    finally show ?thesis
      using True by (subst selectLoop.simps) (simp add: Let_def)
  next
    case False
    then show ?thesis by (subst selectLoop.simps) auto
  qed
qed

lemma selectLoop_all:
  assumes "int (length sel + length av) \<le> c"
  shows "mset (fst (selectLoop rs p sel av c)) = mset sel + mset (map WeightedCharacter.character av)"
proof (rule ccontr)
  let ?A = "mset (fst (selectLoop rs p sel av c))"
  let ?B = "mset sel + mset (map WeightedCharacter.character av)"
  assume "?A \<noteq> ?B"
  with selectLoop_mset [of rs p sel av c] have "?A \<subset># ?B" by (simp add: subset_mset.less_le)
  then have "size ?A < size ?B" by (rule mset_subset_size)
  moreover have "size ?A = length sel + length av"
  proof (cases "int (length sel) < c")
    case True
    with assms show ?thesis by (simp add: selectLoop_length)
  next
    case False
    with assms have "length av = 0" by linarith
    with False show ?thesis by (simp add: selectLoop_length)
  qed
  ultimately show False by simp
qed

lemma calculateCharacterWeights_characters:
  "map WeightedCharacter.character (calculateCharacterWeights cs st cfg) = cs"
  by (induction cs) (simp_all add: calculateCharacterWeights_def Let_def split: option.splits)

lemma uniqueInOrder_props:
  "distinct (uniqueInOrder xs)" "set (uniqueInOrder xs) = set xs"
  by (simp_all add: uniqueInOrder_def)

lemma buildQuestions_characters:
  "map QuizQuestion.character (fst (buildQuestions rs p cs allReadings n)) = cs"
  by (induction cs arbitrary: p) (simp_all add: case_prod_unfold Let_def)

lemma question_options:
  fixes p :: nat and c :: string and allReadings :: "string list" and n :: int
  assumes rc: "mathRandomContract rs"
  defines "w \<equiv> generateWrongOptions rs p c allReadings (n - 1)"
  defines "opts \<equiv> fst (shuffleArray rs (snd w) (c # fst w))"
  shows "count_list opts c = 1"
    and "set opts \<subseteq> insert c (set allReadings)"
    and "distinct allReadings \<Longrightarrow> distinct opts"
    and "1 \<le> n \<Longrightarrow> length opts = 1 + min (nat (n - 1)) (length (filter (\<lambda>r. r \<noteq> c) allReadings))"
proof -
  note g = generateWrongOptions_props [OF rc, where p = p and c = c and allReadings = allReadings
      and n = "n - 1", folded w_def]
  have m: "mset opts = mset (c # fst w)"
    unfolding opts_def using rc by (rule shuffleArray_mset)
  have notin: "c \<notin> set (fst w)" using g(1) by auto
  have "count_list opts c = count (mset opts) c" by (simp add: count_mset)
  also have "\<dots> = 1 + count (mset (fst w)) c" unfolding m by simp
  also have "count (mset (fst w)) c = 0" using notin by (simp add: count_mset count_list_0_iff)
  finally show "count_list opts c = 1" by simp
  have "set opts = set (c # fst w)" using m by (metis set_mset_mset)
  then show "set opts \<subseteq> insert c (set allReadings)" using g(1) by auto
  show "distinct opts" if "distinct allReadings"
  proof -
    have "distinct (c # fst w)" using g(2) [OF that] notin by simp
    then show ?thesis using m by (metis mset_eq_imp_distinct_iff)
  qed
  show "length opts = 1 + min (nat (n - 1)) (length (filter (\<lambda>r. r \<noteq> c) allReadings))"
    if "1 \<le> n"
  proof -
    have "length opts = length (c # fst w)" using m by (metis size_mset)
    then show ?thesis using g(3) that by simp
  qed
qed

lemma buildQuestions_props:
  assumes rc: "mathRandomContract rs"
  shows "list_all (\<lambda>q.
            QuizQuestion.correctAnswer q = reading (QuizQuestion.character q)
          \<and> count_list (options q) (QuizQuestion.correctAnswer q) = 1
          \<and> set (options q) \<subseteq> insert (QuizQuestion.correctAnswer q) (set allReadings)
          \<and> (distinct allReadings \<longrightarrow> distinct (options q))
          \<and> (1 \<le> n \<longrightarrow> length (options q) =
                1 + min (nat (n - 1))
                      (length (filter (\<lambda>r. r \<noteq> QuizQuestion.correctAnswer q) allReadings))))
         (fst (buildQuestions rs p cs allReadings n))"
proof (induction cs arbitrary: p)
  case Nil
  then show ?case by simp
next
  case (Cons ch cs)
  note o = question_options [OF rc, where p = p and c = "reading ch"
      and allReadings = allReadings and n = n]
  show ?case
    using o Cons.IH by (simp add: case_prod_unfold Let_def)
qed

lemma questions_core:
  fixes rs :: "nat \<Rightarrow> real" and w :: "WeightedCharacter list" and c n :: int
    and allReadings :: "string list" and p0 :: nat
  assumes rc: "mathRandomContract rs"
  defines "sel \<equiv> selectAdaptiveCharacters rs p0 w c"
  defines "B \<equiv> buildQuestions rs (snd sel) (fst sel) allReadings n"
  defines "Q \<equiv> fst (shuffleArray rs (snd B) (fst B))"
  shows "int (length Q) = max 0 (min c (int (length w)))"
    and "length (fst B) = length Q"
    and "mset (map QuizQuestion.character Q) \<subseteq># mset (map WeightedCharacter.character w)"
    and "int (length w) \<le> c \<Longrightarrow>
         mset (map QuizQuestion.character Q) = mset (map WeightedCharacter.character w)"
    and "q \<in> set Q \<Longrightarrow>
           QuizQuestion.correctAnswer q = reading (QuizQuestion.character q)
         \<and> count_list (options q) (QuizQuestion.correctAnswer q) = 1
         \<and> set (options q) \<subseteq> insert (QuizQuestion.correctAnswer q) (set allReadings)
         \<and> (distinct allReadings \<longrightarrow> distinct (options q))
         \<and> (1 \<le> n \<longrightarrow> length (options q) =
               1 + min (nat (n - 1))
                     (length (filter (\<lambda>r. r \<noteq> QuizQuestion.correctAnswer q) allReadings)))"
proof -
  have mQ: "mset Q = mset (fst B)" unfolding Q_def using rc by (rule shuffleArray_mset)
  show lQ: "length (fst B) = length Q" using arg_cong [OF mQ, of size] by simp
  have chB: "map QuizQuestion.character (fst B) = fst sel"
    unfolding B_def by (rule buildQuestions_characters)
  have lB: "length (fst B) = length (fst sel)" using arg_cong [OF chB, of length] by simp
  have "length (fst sel) = (if 0 < c then min (nat c) (length w) else 0)"
    unfolding sel_def selectAdaptiveCharacters_def selectLoop_length by simp
  then show "int (length Q) = max 0 (min c (int (length w)))"
    unfolding lQ [symmetric] lB by (auto simp: min_def max_def)
  have mch: "mset (map QuizQuestion.character Q) = mset (fst sel)"
  proof -
    have "mset (map QuizQuestion.character Q) = image_mset QuizQuestion.character (mset Q)"
      by simp
    also have "\<dots> = mset (map QuizQuestion.character (fst B))" unfolding mQ by simp
    finally show ?thesis unfolding chB .
  qed
  show "mset (map QuizQuestion.character Q) \<subseteq># mset (map WeightedCharacter.character w)"
    unfolding mch sel_def selectAdaptiveCharacters_def
    using selectLoop_mset [of rs p0 "[]" w c] by simp
  show "mset (map QuizQuestion.character Q) = mset (map WeightedCharacter.character w)"
    if "int (length w) \<le> c"
    unfolding mch sel_def selectAdaptiveCharacters_def
    using selectLoop_all [of "[]" w c rs p0] that by simp
  show "QuizQuestion.correctAnswer q = reading (QuizQuestion.character q)
         \<and> count_list (options q) (QuizQuestion.correctAnswer q) = 1
         \<and> set (options q) \<subseteq> insert (QuizQuestion.correctAnswer q) (set allReadings)
         \<and> (distinct allReadings \<longrightarrow> distinct (options q))
         \<and> (1 \<le> n \<longrightarrow> length (options q) =
               1 + min (nat (n - 1))
                     (length (filter (\<lambda>r. r \<noteq> QuizQuestion.correctAnswer q) allReadings)))"
    if "q \<in> set Q"
  proof -
    have "set Q = set (fst B)" using arg_cong [OF mQ, of set_mset] by simp
    with that have qB: "q \<in> set (fst B)" by simp
    show ?thesis
      using buildQuestions_props [OF rc, of allReadings n "snd sel" "fst sel",
        folded B_def, unfolded list_all_iff, rule_format, OF qB] .
  qed
qed

lemma distinct_sub_mset:
  assumes sub: "mset ys \<subseteq># mset xs" and d: "distinct xs"
  shows "distinct ys"
  unfolding distinct_count_atmost_1
proof (intro allI)
  fix a
  have "count (mset ys) a \<le> count (mset xs) a"
    using sub by (rule mset_subset_eq_count)
  also have "\<dots> \<le> 1"
    using d by (simp add: distinct_count_atmost_1)
  finally have le: "count (mset ys) a \<le> 1" .
  show "count (mset ys) a = (if a \<in> set ys then 1 else 0)"
  proof (cases "a \<in> set ys")
    case True
    then have "1 \<le> count (mset ys) a" by (simp add: Suc_le_eq)
    with le have "count (mset ys) a = 1" by linarith
    with True show ?thesis by simp
  next
    case False
    then show ?thesis by (simp add: count_mset count_list_0_iff)
  qed
qed

lemma distinct_ids_sub_mset:
  assumes sub: "mset (map f qs) \<subseteq># mset cs" and d: "distinct (map g cs)"
  shows "distinct (map (\<lambda>q. g (f q)) qs)"
proof -
  have "mset (map g (map f qs)) \<subseteq># mset (map g cs)"
    using image_mset_subseteq_mono [OF sub, of g] by (simp add: multiset.map_comp)
  then have "distinct (map g (map f qs))"
    using d by (rule distinct_sub_mset)
  then show ?thesis by (simp add: comp_def)
qed

text \<open>
  C5. For a module with at least one character, and draws that obey the contract of
  \<^verbatim>\<open>Math.random\<close>, \<open>startQuiz\<close> succeeds. The number of its questions is
  \<open>min questionCount k\<close> for the \<open>k\<close> characters of the module (no question when
  \<open>questionCount\<close> is negative), and \<open>totalItems\<close> of the session is that number. The
  characters of the questions are taken from the module's characters without repetition of a
  position: they form a sub-multiset of them, all of them when \<open>questionCount \<ge> k\<close>, and
  they are pairwise distinct when the module's characters are. In every question the
  correct answer is the reading of its character and occurs exactly once among the options;
  the options are distinct readings of the module, and for \<open>optionsCount \<ge> 1\<close> there are
  \<open>optionsCount - 1\<close> distractors, or as many as there are other distinct readings in the
  module when these are fewer.
\<close>

theorem startQuiz_questions:
  assumes rc: "mathRandomContract rs"
    and m: "modules db mid = Some m"
    and ne: "moduleCharacters m \<noteq> []"
  shows "\<exists>session db'.
      startQuiz rs newId now uid mid config db = (Inr session, db')
    \<and> int (length (questions session)) =
        max 0 (min (questionCount config) (int (length (moduleCharacters m))))
    \<and> (0 \<le> questionCount config \<longrightarrow>
          int (length (questions session)) =
            min (questionCount config) (int (length (moduleCharacters m))))
    \<and> QuizSession.totalItems session = int (length (questions session))
    \<and> sessions db' =
        sessions db @ [createSession newId uid mid (int (length (questions session))) now]
    \<and> mset (map QuizQuestion.character (questions session)) \<subseteq># mset (moduleCharacters m)
    \<and> (int (length (moduleCharacters m)) \<le> questionCount config \<longrightarrow>
          mset (map QuizQuestion.character (questions session)) = mset (moduleCharacters m))
    \<and> (distinct (map charId (moduleCharacters m)) \<longrightarrow>
          distinct (map (\<lambda>q. charId (QuizQuestion.character q)) (questions session)))
    \<and> (\<forall>q\<in>set (questions session).
            QuizQuestion.correctAnswer q = reading (QuizQuestion.character q)
          \<and> count_list (options q) (QuizQuestion.correctAnswer q) = 1
          \<and> distinct (options q)
          \<and> set (options q) \<subseteq> reading ` set (moduleCharacters m)
          \<and> (1 \<le> optionsCount config \<longrightarrow> length (options q) =
                1 + min (nat (optionsCount config - 1))
                      (card (reading ` set (moduleCharacters m) - {QuizQuestion.correctAnswer q}))))"
proof -
  let ?chars = "moduleCharacters m"
  let ?st = "\<lambda>cid. if cid \<in> set (map charId ?chars)
              then map_option AttemptCounts.truncate (userCharacterStats db (uid, cid)) else None"
  let ?w = "calculateCharacterWeights ?chars ?st config"
  let ?c = "min (questionCount config) (int (length ?chars))"
  let ?sel = "selectAdaptiveCharacters rs 0 ?w ?c"
  let ?all = "uniqueInOrder (map reading ?chars)"
  let ?B = "buildQuestions rs (snd ?sel) (fst ?sel) ?all (optionsCount config)"
  let ?Q = "fst (shuffleArray rs (snd ?B) (fst ?B))"
  let ?session = "\<lparr>QuizSession.id = newId, QuizSession.moduleId = mid,
      QuizSession.moduleName = ModuleRow.moduleName m, questions = ?Q,
      totalItems = int (length (fst ?B)), startedAt = now\<rparr>"
  let ?db' = "db\<lparr>sessions := sessions db @ [createSession newId uid mid (int (length (fst ?B))) now]\<rparr>"
  have run: "startQuiz rs newId now uid mid config db = (Inr ?session, ?db')"
    using m ne by (simp add: startQuiz_def Let_def case_prod_unfold createSession_def)
  note core = questions_core [OF rc, where w = ?w and c = ?c and allReadings = ?all
      and n = "optionsCount config" and ?p0.0 = 0]
  have chw: "map WeightedCharacter.character ?w = ?chars"
    by (rule calculateCharacterWeights_characters)
  have lw: "length ?w = length ?chars"
    by (simp add: calculateCharacterWeights_def)
  have len: "int (length ?Q) = max 0 ?c"
    using core(1) unfolding lw by simp
  have lB: "length (fst ?B) = length ?Q" by (rule core(2))
  have sub: "mset (map QuizQuestion.character ?Q) \<subseteq># mset ?chars"
    using core(3) unfolding chw .
  have full: "mset (map QuizQuestion.character ?Q) = mset ?chars"
    if "int (length ?chars) \<le> questionCount config"
  proof -
    from that have "int (length ?w) \<le> ?c" unfolding lw by simp
    from core(4) [OF this] show ?thesis unfolding chw .
  qed
  have dist: "distinct (map (\<lambda>q. charId (QuizQuestion.character q)) ?Q)"
    if d: "distinct (map charId ?chars)"
    using sub d by (rule distinct_ids_sub_mset)
  have props: "QuizQuestion.correctAnswer q = reading (QuizQuestion.character q)
          \<and> count_list (options q) (QuizQuestion.correctAnswer q) = 1
          \<and> distinct (options q)
          \<and> set (options q) \<subseteq> reading ` set ?chars
          \<and> (1 \<le> optionsCount config \<longrightarrow> length (options q) =
                1 + min (nat (optionsCount config - 1))
                      (card (reading ` set ?chars - {QuizQuestion.correctAnswer q})))"
    if q: "q \<in> set ?Q" for q
  proof -
    note p = core(5) [OF q]
    have da: "distinct ?all" and sa: "set ?all = reading ` set ?chars"
      by (simp_all add: uniqueInOrder_props)
    have "set (map QuizQuestion.character ?Q) \<subseteq> set ?chars"
      using set_mset_mono [OF sub] by simp
    with q have "QuizQuestion.character q \<in> set ?chars" by auto
    with p have rin: "QuizQuestion.correctAnswer q \<in> reading ` set ?chars" by simp
    have "length (filter (\<lambda>r. r \<noteq> QuizQuestion.correctAnswer q) ?all)
          = card (set (filter (\<lambda>r. r \<noteq> QuizQuestion.correctAnswer q) ?all))"
      by (rule distinct_card [symmetric]) (rule distinct_filter, rule da)
    also have "set (filter (\<lambda>r. r \<noteq> QuizQuestion.correctAnswer q) ?all)
          = reading ` set ?chars - {QuizQuestion.correctAnswer q}"
      unfolding set_filter sa by auto
    finally have card: "length (filter (\<lambda>r. r \<noteq> QuizQuestion.correctAnswer q) ?all)
        = card (reading ` set ?chars - {QuizQuestion.correctAnswer q})" .
    have "set (options q) \<subseteq> reading ` set ?chars"
      using p rin unfolding sa by blast
    then show ?thesis
      using p da unfolding card by blast
  qed
  show ?thesis
  proof (intro exI conjI)
    show "startQuiz rs newId now uid mid config db = (Inr ?session, ?db')" by (rule run)
    show "int (length (questions ?session)) = max 0 ?c" using len by simp
    show "0 \<le> questionCount config \<longrightarrow> int (length (questions ?session)) = ?c"
      using len by simp
    show "QuizSession.totalItems ?session = int (length (questions ?session))"
      using lB by simp
    show "sessions ?db' =
        sessions db @ [createSession newId uid mid (int (length (questions ?session))) now]"
      using lB by simp
    show "mset (map QuizQuestion.character (questions ?session)) \<subseteq># mset ?chars"
      using sub by simp
    show "int (length ?chars) \<le> questionCount config \<longrightarrow>
          mset (map QuizQuestion.character (questions ?session)) = mset ?chars"
      using full by simp
    show "distinct (map charId ?chars) \<longrightarrow>
          distinct (map (\<lambda>q. charId (QuizQuestion.character q)) (questions ?session))"
      using dist by simp
    show "\<forall>q\<in>set (questions ?session).
            QuizQuestion.correctAnswer q = reading (QuizQuestion.character q)
          \<and> count_list (options q) (QuizQuestion.correctAnswer q) = 1
          \<and> distinct (options q)
          \<and> set (options q) \<subseteq> reading ` set ?chars
          \<and> (1 \<le> optionsCount config \<longrightarrow> length (options q) =
                1 + min (nat (optionsCount config - 1))
                      (card (reading ` set ?chars - {QuizQuestion.correctAnswer q})))"
    proof (intro ballI)
      fix q assume "q \<in> set (questions ?session)"
      then have "q \<in> set ?Q" by simp
      from props [OF this]
      show "QuizQuestion.correctAnswer q = reading (QuizQuestion.character q)
          \<and> count_list (options q) (QuizQuestion.correctAnswer q) = 1
          \<and> distinct (options q)
          \<and> set (options q) \<subseteq> reading ` set ?chars
          \<and> (1 \<le> optionsCount config \<longrightarrow> length (options q) =
                1 + min (nat (optionsCount config - 1))
                      (card (reading ` set ?chars - {QuizQuestion.correctAnswer q})))" .
    qed
  qed
qed

lemma exQuiz_eval:
  "map (\<lambda>q. (charId (QuizQuestion.character q), QuizQuestion.correctAnswer q, options q))
     (questions (projr (fst (startQuiz exRandoms ''s9'' 500 ''u'' ''m'' DEFAULT_QUIZ_CONFIG exDbM))))
   = [(''c5'', ''o'', [''i'', ''a'', ''o'', ''e'']),
      (''c4'', ''e'', [''i'', ''a'', ''e'', ''o'']),
      (''c3'', ''u'', [''i'', ''a'', ''u'', ''o'']),
      (''c1'', ''a'', [''u'', ''i'', ''a'', ''o'']),
      (''c2'', ''i'', [''u'', ''a'', ''i'', ''o''])]"
  by code_simp

theorem startQuiz_questions_witness:
  "mathRandomContract exRandoms
   \<and> modules exDbM ''m'' = Some exModule
   \<and> moduleCharacters exModule \<noteq> []
   \<and> length (questions (projr (fst
         (startQuiz exRandoms ''s9'' 500 ''u'' ''m'' DEFAULT_QUIZ_CONFIG exDbM)))) = 5
   \<and> mset (map QuizQuestion.character (questions (projr (fst
         (startQuiz exRandoms ''s9'' 500 ''u'' ''m'' DEFAULT_QUIZ_CONFIG exDbM)))))
       = mset (moduleCharacters exModule)
   \<and> map (\<lambda>q. (charId (QuizQuestion.character q), QuizQuestion.correctAnswer q, options q))
        (questions (projr (fst
          (startQuiz exRandoms ''s9'' 500 ''u'' ''m'' DEFAULT_QUIZ_CONFIG exDbM))))
       = [(''c5'', ''o'', [''i'', ''a'', ''o'', ''e'']),
          (''c4'', ''e'', [''i'', ''a'', ''e'', ''o'']),
          (''c3'', ''u'', [''i'', ''a'', ''u'', ''o'']),
          (''c1'', ''a'', [''u'', ''i'', ''a'', ''o'']),
          (''c2'', ''i'', [''u'', ''a'', ''i'', ''o''])]"
proof -
  have rc: "mathRandomContract exRandoms"
    by (simp add: mathRandomContract_def exRandoms_def)
  have m: "modules exDbM ''m'' = Some exModule"
    by (simp add: exDbM_def)
  have ne: "moduleCharacters exModule \<noteq> []"
    by (simp add: exModule_def)
  from startQuiz_questions [OF rc m ne, of "''s9''" 500 "''u''" DEFAULT_QUIZ_CONFIG]
  obtain session db' where
    run: "startQuiz exRandoms ''s9'' 500 ''u'' ''m'' DEFAULT_QUIZ_CONFIG exDbM = (Inr session, db')"
    and len: "int (length (questions session)) =
        max 0 (min (questionCount DEFAULT_QUIZ_CONFIG) (int (length (moduleCharacters exModule))))"
    and full: "int (length (moduleCharacters exModule)) \<le> questionCount DEFAULT_QUIZ_CONFIG \<longrightarrow>
        mset (map QuizQuestion.character (questions session)) = mset (moduleCharacters exModule)"
    by blast
  have s: "projr (fst (startQuiz exRandoms ''s9'' 500 ''u'' ''m'' DEFAULT_QUIZ_CONFIG exDbM)) = session"
    by (simp add: run)
  have "length (questions session) = 5"
    using len by (simp add: DEFAULT_QUIZ_CONFIG_def exModule_def)
  moreover have "mset (map QuizQuestion.character (questions session)) = mset (moduleCharacters exModule)"
    using full by (simp add: DEFAULT_QUIZ_CONFIG_def exModule_def)
  ultimately show ?thesis
    using rc m ne exQuiz_eval unfolding s by blast
qed

subsection \<open>The answer queue\<close>

text \<open>
  What holds of the queue: an answer that is \<open>Failed\<close> with \<open>retryCount \<ge> MAX_RETRIES\<close> is
  never picked by a pass again, \<open>checkSync\<close> does not resolve to true while such an answer
  is in the queue, it resolves to true when every answer is \<open>Synced\<close>, and the delays set
  after the first, second and third failure are 1000, 2000 and 5000 ms.
\<close>

lemmas queue_defs = processQueue_def pendingAnswers_def markSyncing_def markSynced_def
  markFailed_def retryDelay_def RETRY_DELAYS_def MAX_RETRIES_def checkSync_def exPending_def

lemma terminal_failed_not_retried:
  "status a = Failed \<Longrightarrow> MAX_RETRIES \<le> retryCount a \<Longrightarrow> a \<notin> set (pendingAnswers current)"
  by (simp add: pendingAnswers_def)

lemma checkSync_terminal_failed:
  "a \<in> set current \<Longrightarrow> status a = Failed \<Longrightarrow> MAX_RETRIES \<le> retryCount a \<Longrightarrow>
   checkSync current elapsed \<noteq> Some True"
  by (auto simp: checkSync_def Let_def filter_empty_conv)

lemma checkSync_all_synced:
  "list_all (\<lambda>a. status a = Synced) current \<Longrightarrow> checkSync current elapsed = Some True"
  by (auto simp: checkSync_def Let_def filter_empty_conv list_all_iff)

lemma retryDelay_values:
  "retryDelay (a\<lparr>retryCount := 0\<rparr>) = Some 1000"
  "retryDelay (a\<lparr>retryCount := 1\<rparr>) = Some 2000"
  "retryDelay (a\<lparr>retryCount := 2\<rparr>) = Some 5000"
  by (simp_all add: retryDelay_def RETRY_DELAYS_def)

lemma three_failures_are_terminal:
  "fst (processQueue (\<lambda>a. False) (fst (processQueue (\<lambda>a. False)
      (fst (processQueue (\<lambda>a. False) [exPending])))))
     = [exPending\<lparr>status := Failed, retryCount := 3\<rparr>]
   \<and> processQueue (\<lambda>a. False) [exPending\<lparr>status := Failed, retryCount := 3\<rparr>]
     = ([exPending\<lparr>status := Failed, retryCount := 3\<rparr>], [])
   \<and> checkSync [exPending\<lparr>status := Failed, retryCount := 3\<rparr>] 100 = Some False"
  by (simp add: queue_defs)

text \<open>
  C9 says that \<open>waitForSync\<close> returns true precisely when every queued answer is
  \<open>Synced\<close>, as the comment of \<open>waitForSync\<close> does ("Returns true if all synced"). The
  code does not: after one failed delivery the answer is \<open>Failed\<close> with \<open>retryCount = 1\<close>,
  a pass would pick it again, a retry is set for 1000 ms later, and \<open>checkSync\<close>, which
  counts only \<open>Pending\<close> and \<open>Syncing\<close> answers as outstanding, resolves to true
  although the answer is not \<open>Synced\<close>.
\<close>

theorem waitForSync_true_with_unsynced_answer:
  "processQueue (\<lambda>a. False) [exPending]
     = ([exPending\<lparr>status := Failed, retryCount := 1\<rparr>], [Some 1000])
   \<and> pendingAnswers [exPending\<lparr>status := Failed, retryCount := 1\<rparr>]
     = [exPending\<lparr>status := Failed, retryCount := 1\<rparr>]
   \<and> checkSync [exPending\<lparr>status := Failed, retryCount := 1\<rparr>] 100 = Some True
   \<and> status (exPending\<lparr>status := Failed, retryCount := 1\<rparr>) \<noteq> Synced"
  by (simp add: queue_defs)

end
